theory Spec2Isabelle
  imports Main "HOL-Library.Multiset"
begin

section \<open>Strings\<close>

text \<open>
  A JavaScript string is modelled as a \<^typ>\<open>string\<close>: the list of the bytes of its UTF-8
  encoding, which is how the literals stand in the source file. The functions below only
  look for the ASCII characters \<open>/\<close>, \<open>_\<close> and \<open>-\<close> and only build strings from ASCII
  digits, letters and the minus sign U+2212; none of the ASCII bytes occurs inside a
  multi-byte sequence, so splitting and replacing on bytes is splitting and replacing on
  characters.
\<close>

text \<open>\<open>s.split(c)\<close> for a one-character separator: always at least one segment.\<close>

fun split :: "char \<Rightarrow> string \<Rightarrow> string list" where
  "split c [] = [[]]"
| "split c (x # xs) =
     (if x = c then [] # split c xs
      else (case split c xs of [] \<Rightarrow> [[x]] | s # ss \<Rightarrow> (x # s) # ss))"

text \<open>\<open>a.pop()\<close> read for its value: the last element, \<open>undefined\<close> on an empty array.\<close>

definition pop :: "'a list \<Rightarrow> 'a option" where
  "pop xs = (if xs = [] then None else Some (last xs))"

text \<open>\<open>s.replace(/c/g, d)\<close> for single characters \<open>c\<close> and \<open>d\<close>.\<close>

definition replace_all :: "char \<Rightarrow> char \<Rightarrow> string \<Rightarrow> string" where
  "replace_all c d s = map (\<lambda>x. if x = c then d else x) s"

text \<open>\<open>s.replace(/c/g, '')\<close>: every occurrence removed.\<close>

definition remove_all :: "char \<Rightarrow> string \<Rightarrow> string" where
  "remove_all c s = filter (\<lambda>x. x \<noteq> c) s"

subsection \<open>cityFromZoneId\<close>

definition cityFromZoneId :: "string \<Rightarrow> string" where
  "cityFromZoneId zid =
     (let last = (case pop (split CHR ''/'' zid) of None \<Rightarrow> zid | Some seg \<Rightarrow> seg)
      in replace_all CHR ''_'' CHR '' '' last)"

text \<open>The specification's wording: the substring after the last \<open>/\<close>, the whole string
  when there is none.\<close>

definition after_last :: "char \<Rightarrow> string \<Rightarrow> string" where
  "after_last c s = rev (takeWhile (\<lambda>x. x \<noteq> c) (rev s))"

subsection \<open>Decimal digits\<close>

text \<open>
  The decimal digits of a non-negative integer: what \<open>Number.prototype.toString\<close> gives
  in a template literal and what \<open>FormatNumeric\<close> gives for the \<open>latn\<close> numbering system
  without grouping.
\<close>

definition digit_char :: "nat \<Rightarrow> char" where
  "digit_char n = char_of (48 + n)"

fun dec :: "nat \<Rightarrow> string" where
  "dec n = (if n < 10 then [digit_char n] else dec (n div 10) @ [digit_char (n mod 10)])"

declare dec.simps [simp del]

definition is_digit :: "char \<Rightarrow> bool" where
  "is_digit c = (48 \<le> (of_char c :: nat) \<and> (of_char c :: nat) \<le> 57)"

definition digit_val :: "char \<Rightarrow> nat" where
  "digit_val c = of_char c - 48"

definition digits_val :: "string \<Rightarrow> nat" where
  "digits_val s = foldl (\<lambda>a c. 10 * a + digit_val c) 0 s"

text \<open>
  A JavaScript number as this program meets it: an integer, or \<open>NaN\<close>. Every number the
  program computes is an integer except the quotient handed to \<open>Math.round\<close>, which
  \<open>round_div\<close> below rounds in one step. An instant is the time value of a valid
  \<open>Date\<close>: an integer of at most 8.64e15 in magnitude, which a double holds exactly.
\<close>

datatype number = NaN | Num int

text \<open>
  \<open>Number(s)\<close> on the strings this program passes: a string of decimal digits is its
  value and the empty string is 0. The other numeric literals of \<open>StringToNumber\<close> (sign,
  fraction, exponent, radix prefix, surrounding white space, \<open>Infinity\<close>) are not
  modelled: every string passed here is a run of digits, or \<open>undefined\<close> when a part is
  missing, which is \<open>NaN\<close>.
\<close>

definition Number_of :: "string \<Rightarrow> number" where
  "Number_of s = (if list_all is_digit s then Num (int (digits_val s)) else NaN)"

text \<open>\<open>String(x)\<close> of a number, as a template literal renders it.\<close>

definition toString :: "number \<Rightarrow> string" where
  "toString x = (case x of NaN \<Rightarrow> ''NaN''
                 | Num i \<Rightarrow> (if i < 0 then CHR ''-'' # dec (nat (- i)) else dec (nat i)))"

section \<open>Time values\<close>

text \<open>
  The date arithmetic of ECMAScript (ECMA-262, Time Values and Time Range). A time value
  is a number of milliseconds since 1970-01-01T00:00:00Z.
\<close>

definition msPerDay :: int where "msPerDay = 86400000"
definition msPerHour :: int where "msPerHour = 3600000"
definition msPerMinute :: int where "msPerMinute = 60000"
definition msPerSecond :: int where "msPerSecond = 1000"

definition Day :: "int \<Rightarrow> int" where
  "Day t = t div msPerDay"

definition TimeWithinDay :: "int \<Rightarrow> int" where
  "TimeWithinDay t = t mod msPerDay"

definition DaysInYear :: "int \<Rightarrow> int" where
  "DaysInYear y =
     (if y mod 4 \<noteq> 0 then 365
      else if y mod 100 \<noteq> 0 then 366
      else if y mod 400 \<noteq> 0 then 365
      else 366)"

definition DayFromYear :: "int \<Rightarrow> int" where
  "DayFromYear y =
     365 * (y - 1970) + (y - 1969) div 4 - (y - 1901) div 100 + (y - 1601) div 400"

text \<open>
  ECMA-262 defines \<open>YearFromTime(t)\<close> as the largest \<open>y\<close> with \<open>TimeFromYear(y) \<le> t\<close>.
  Computed here from the mean year length of 146097/400 days, which is off by at most
  one year; \<open>YearFromDay_bounds\<close> and \<open>YearFromDay_greatest\<close> show that the result is
  the year ECMA-262 defines.
\<close>

definition YearFromDay :: "int \<Rightarrow> int" where
  "YearFromDay d =
     (let y = 1970 + (400 * d) div 146097
      in if d < DayFromYear y then y - 1
         else if DayFromYear (y + 1) \<le> d then y + 1
         else y)"

definition YearFromTime :: "int \<Rightarrow> int" where
  "YearFromTime t = YearFromDay (Day t)"

definition InLeapYear :: "int \<Rightarrow> int" where
  "InLeapYear t = (if DaysInYear (YearFromTime t) = 366 then 1 else 0)"

definition DayWithinYear :: "int \<Rightarrow> int" where
  "DayWithinYear t = Day t - DayFromYear (YearFromTime t)"

text \<open>The first day of month \<open>m\<close> (0 is January) within a year, \<open>l\<close> being 1 in a leap year.\<close>

definition monthStart :: "int \<Rightarrow> int \<Rightarrow> int" where
  "monthStart l m =
     (if m = 0 then 0 else if m = 1 then 31 else if m = 2 then 59 + l
      else if m = 3 then 90 + l else if m = 4 then 120 + l else if m = 5 then 151 + l
      else if m = 6 then 181 + l else if m = 7 then 212 + l else if m = 8 then 243 + l
      else if m = 9 then 273 + l else if m = 10 then 304 + l else 334 + l)"

definition MonthFromTime :: "int \<Rightarrow> int" where
  "MonthFromTime t =
     (let d = DayWithinYear t; l = InLeapYear t
      in if d < 31 then 0 else if d < 59 + l then 1 else if d < 90 + l then 2
         else if d < 120 + l then 3 else if d < 151 + l then 4 else if d < 181 + l then 5
         else if d < 212 + l then 6 else if d < 243 + l then 7 else if d < 273 + l then 8
         else if d < 304 + l then 9 else if d < 334 + l then 10 else 11)"

definition DateFromTime :: "int \<Rightarrow> int" where
  "DateFromTime t =
     DayWithinYear t - monthStart (InLeapYear t) (MonthFromTime t) + 1"

definition HourFromTime :: "int \<Rightarrow> int" where
  "HourFromTime t = (t div msPerHour) mod 24"

definition MinFromTime :: "int \<Rightarrow> int" where
  "MinFromTime t = (t div msPerMinute) mod 60"

definition SecFromTime :: "int \<Rightarrow> int" where
  "SecFromTime t = (t div msPerSecond) mod 60"

definition MakeTime :: "int \<Rightarrow> int \<Rightarrow> int \<Rightarrow> int \<Rightarrow> int" where
  "MakeTime hour minute sec ms =
     hour * msPerHour + minute * msPerMinute + sec * msPerSecond + ms"

text \<open>
  \<open>MakeDay(year, month, date)\<close>: ECMA-262 asks for a time value \<open>t\<close> in year
  \<open>ym = year + floor(month / 12)\<close> and month \<open>mn = month mod 12\<close> with date 1 and returns
  \<open>Day(t) + date - 1\<close>. The first day of that month is the year's first day plus
  \<open>monthStart\<close>; \<open>MakeDay_first\<close> shows that it has the year, month and date asked for.
\<close>

definition MakeDay :: "int \<Rightarrow> int \<Rightarrow> int \<Rightarrow> int" where
  "MakeDay year month date =
     (let ym = year + month div 12; mn = month mod 12
      in DayFromYear ym + monthStart (if DaysInYear ym = 366 then 1 else 0) mn + date - 1)"

definition MakeDate :: "int \<Rightarrow> int \<Rightarrow> int" where
  "MakeDate day time = day * msPerDay + time"

text \<open>\<open>MakeFullYear\<close>: a year from 0 to 99 stands for 1900 to 1999.\<close>

definition MakeFullYear :: "int \<Rightarrow> int" where
  "MakeFullYear y = (if 0 \<le> y \<and> y \<le> 99 then 1900 + y else y)"

text \<open>\<open>TimeClip\<close>: a time value is at most 8.64e15 milliseconds from the epoch, and
  \<open>NaN\<close> beyond.\<close>

definition TimeClip :: "int \<Rightarrow> number" where
  "TimeClip time = (if \<bar>time\<bar> > 8640000000000000 then NaN else Num time)"

text \<open>\<open>Date.UTC(year, month, date, hours, minutes, seconds)\<close>; \<open>NaN\<close> when an argument is,
  and when the date is out of the range of time values.\<close>

definition Date_UTC :: "number \<Rightarrow> number \<Rightarrow> number \<Rightarrow> number \<Rightarrow> number \<Rightarrow> number \<Rightarrow> number" where
  "Date_UTC year month date hours minutes seconds =
     (case (year, month, date, hours, minutes, seconds) of
        (Num y, Num m, Num dt, Num h, Num mi, Num s) \<Rightarrow>
          TimeClip (MakeDate (MakeDay (MakeFullYear y) m dt) (MakeTime h mi s 0))
      | _ \<Rightarrow> NaN)"

text \<open>Arithmetic on numbers: \<open>NaN\<close> is contagious, and every comparison with it is false.\<close>

definition num_sub :: "number \<Rightarrow> number \<Rightarrow> number" where
  "num_sub a b = (case (a, b) of (Num x, Num y) \<Rightarrow> Num (x - y) | _ \<Rightarrow> NaN)"

text \<open>
  \<open>Math.round(a / k)\<close> for integers \<open>a\<close> and \<open>k > 0\<close>: the nearest integer to the
  quotient, a tie going up. The double that \<open>a / 60000\<close> computes rounds to the same
  integer as the exact quotient while \<open>a\<close> is below 5e14 in magnitude: the quotient is
  then a half-integer, which is a double, or at least 1/60000 away from one, which is
  more than the spacing of the doubles there. In \<open>offsetMinutes\<close> the difference passed
  is that small unless the zone-local year lies some 8000 years or more before year 1.
\<close>

definition round_div :: "number \<Rightarrow> int \<Rightarrow> number" where
  "round_div a k = (case a of NaN \<Rightarrow> NaN | Num x \<Rightarrow> Num ((2 * x + k) div (2 * k)))"

section \<open>The environment\<close>

text \<open>
  What the module takes from its platform and from the bundled \<open>@vvo/tzdb\<close> package, none
  of which is part of the repository:
  \<^item> \<open>timeZoneRules\<close>: the time-zone database behind \<open>Intl.DateTimeFormat\<close>. A recognised
    identifier has a rule giving the zone's offset from UTC, in milliseconds, at a time
    value; an identifier with no rule is rejected by the constructor;
  \<^item> \<open>hourCycle24\<close>: the hour cycle a locale's data selects for \<open>hour12: false\<close>:
    midnight is hour 0 under \<open>H23\<close> and hour 24 under \<open>H24\<close>;
  \<^item> \<open>resolvedTimeZone\<close>: \<open>Intl.DateTimeFormat().resolvedOptions().timeZone\<close>;
  \<^item> \<open>supportedValuesOf\<close>: \<open>Intl.supportedValuesOf\<close>, which may be missing, may throw,
    or returns the identifiers for the key \<open>timeZone\<close>;
  \<^item> \<open>timeZonesNames\<close> and \<open>getTimeZones\<close>: the list of names and the metadata table of
    \<open>@vvo/tzdb\<close> (of a \<open>TimeZone\<close> object only \<open>name\<close> and \<open>countryName\<close> are read);
  \<^item> \<open>localeCompare\<close>: \<open>String.prototype.localeCompare\<close> in the default locale.
\<close>

datatype hour_cycle = H23 | H24

datatype enumeration = Absent | Throws | Returns "string list"

record TimeZone =
  name :: string
  countryName :: string

record env =
  timeZoneRules :: "string \<Rightarrow> (int \<Rightarrow> int) option"
  hourCycle24 :: "string \<Rightarrow> hour_cycle"
  resolvedTimeZone :: string
  supportedValuesOf :: enumeration
  timeZonesNames :: "string list"
  getTimeZones :: "TimeZone list"
  localeCompare :: "string \<Rightarrow> string \<Rightarrow> int"

text \<open>The \<open>RangeError\<close> of the \<open>Intl.DateTimeFormat\<close> constructor for a time zone it does
  not recognise, with the identifier it was given.\<close>

datatype error = UnknownZoneError string

section \<open>Intl.DateTimeFormat\<close>

text \<open>
  The constructor, for the options this module passes: it resolves the time zone, or
  throws. A formatter is the rule of its zone.
\<close>

definition DateTimeFormat :: "env \<Rightarrow> string \<Rightarrow> error + (int \<Rightarrow> int)" where
  "DateTimeFormat e timeZone =
     (case timeZoneRules e timeZone of
        None \<Rightarrow> Inl (UnknownZoneError timeZone)
      | Some rule \<Rightarrow> Inr rule)"

text \<open>\<open>ToLocalTime\<close> (ECMA-402): the time value shifted by the zone's offset at it.\<close>

definition ToLocalTime :: "(int \<Rightarrow> int) \<Rightarrow> int \<Rightarrow> int" where
  "ToLocalTime rule t = t + rule t"

datatype field = F_year | F_month | F_day | F_hour | F_minute | F_second

datatype style = Numeric | TwoDigit

datatype pattern_item = Lit string | Field field style

type_synonym part = "string \<times> string"

definition field_name :: "field \<Rightarrow> string" where
  "field_name f =
     (case f of F_year \<Rightarrow> ''year'' | F_month \<Rightarrow> ''month'' | F_day \<Rightarrow> ''day''
      | F_hour \<Rightarrow> ''hour'' | F_minute \<Rightarrow> ''minute'' | F_second \<Rightarrow> ''second'')"

text \<open>
  The value of a field of the local time \<open>tz\<close> as \<open>FormatDateTimePattern\<close> (ECMA-402)
  computes it in the proleptic Gregorian calendar: a year of 0 or less is shown as
  \<open>1 - year\<close> (its year of the era before), the month counts from 1, and midnight is
  hour 24 in the cycle \<open>H24\<close>.
\<close>

definition field_value :: "hour_cycle \<Rightarrow> field \<Rightarrow> int \<Rightarrow> int" where
  "field_value hc f tz =
     (case f of
        F_year \<Rightarrow> (let v = YearFromTime tz in if v \<le> 0 then 1 - v else v)
      | F_month \<Rightarrow> MonthFromTime tz + 1
      | F_day \<Rightarrow> DateFromTime tz
      | F_hour \<Rightarrow> (let v = HourFromTime tz in if hc = H24 \<and> v = 0 then 24 else v)
      | F_minute \<Rightarrow> MinFromTime tz
      | F_second \<Rightarrow> SecFromTime tz)"

text \<open>\<open>numeric\<close>: the decimal digits. \<open>2-digit\<close>: at least two digits, and of more than
  two only the last two.\<close>

definition format_value :: "style \<Rightarrow> int \<Rightarrow> string" where
  "format_value st v =
     (case st of
        Numeric \<Rightarrow> dec (nat v)
      | TwoDigit \<Rightarrow>
          (let fv = (if v < 10 then CHR ''0'' # dec (nat v) else dec (nat v))
           in if length fv > 2 then drop (length fv - 2) fv else fv))"

definition format_item :: "hour_cycle \<Rightarrow> int \<Rightarrow> pattern_item \<Rightarrow> part" where
  "format_item hc tz it =
     (case it of
        Lit s \<Rightarrow> (''literal'', s)
      | Field f st \<Rightarrow> (field_name f, format_value st (field_value hc f tz)))"

definition formatToParts :: "hour_cycle \<Rightarrow> pattern_item list \<Rightarrow> int \<Rightarrow> part list" where
  "formatToParts hc pat tz = map (format_item hc tz) pat"

definition format :: "hour_cycle \<Rightarrow> pattern_item list \<Rightarrow> int \<Rightarrow> string" where
  "format hc pat tz = concat (map snd (formatToParts hc pat tz))"

text \<open>
  The patterns the locale data (CLDR) gives for the three option sets of this module:
  \<open>en-CA\<close> with year, month and day; \<open>en-US\<close> with all six fields; \<open>en-GB\<close> with hour and
  minute. The module looks parts up by type, so of the first two only the fields and
  their styles matter.
\<close>

definition pattern_en_CA :: "pattern_item list" where
  "pattern_en_CA =
     [Field F_year Numeric, Lit ''-'', Field F_month TwoDigit, Lit ''-'', Field F_day TwoDigit]"

definition pattern_en_US :: "pattern_item list" where
  "pattern_en_US =
     [Field F_month TwoDigit, Lit ''/'', Field F_day TwoDigit, Lit ''/'', Field F_year Numeric,
      Lit '', '', Field F_hour TwoDigit, Lit '':'', Field F_minute TwoDigit, Lit '':'',
      Field F_second TwoDigit]"

definition pattern_en_GB :: "pattern_item list" where
  "pattern_en_GB = [Field F_hour TwoDigit, Lit '':'', Field F_minute TwoDigit]"

section \<open>The module\<close>

subsection \<open>deviceZone\<close>

definition deviceZone :: "env \<Rightarrow> string" where
  "deviceZone e = resolvedTimeZone e"

subsection \<open>dayKey\<close>

text \<open>\<open>parts.find(p => p.type === t)?.value\<close>: \<open>None\<close> is \<open>undefined\<close>.\<close>

definition find_value :: "part list \<Rightarrow> string \<Rightarrow> string option" where
  "find_value parts t = map_option snd (find (\<lambda>p. fst p = t) parts)"

text \<open>A value in a template literal: \<open>undefined\<close> is spelled out.\<close>

definition template :: "string option \<Rightarrow> string" where
  "template v = (case v of None \<Rightarrow> ''undefined'' | Some s \<Rightarrow> s)"

definition dayKey :: "env \<Rightarrow> int \<Rightarrow> string \<Rightarrow> error + string" where
  "dayKey e date timeZone =
     (case DateTimeFormat e timeZone of
        Inl err \<Rightarrow> Inl err
      | Inr rule \<Rightarrow>
          (let parts = formatToParts (hourCycle24 e ''en-CA'') pattern_en_CA (ToLocalTime rule date);
               get = (\<lambda>t. template (find_value parts t))
           in Inr (get ''year'' @ ''-'' @ get ''month'' @ ''-'' @ get ''day'')))"

subsection \<open>offsetMinutes\<close>

definition getNum :: "part list \<Rightarrow> string \<Rightarrow> number" where
  "getNum parts t = (case find_value parts t of None \<Rightarrow> NaN | Some s \<Rightarrow> Number_of s)"

definition offsetMinutes :: "env \<Rightarrow> string \<Rightarrow> int \<Rightarrow> error + number" where
  "offsetMinutes e timeZone date =
     (case DateTimeFormat e timeZone of
        Inl err \<Rightarrow> Inl err
      | Inr rule \<Rightarrow>
          (let parts = formatToParts (hourCycle24 e ''en-US'') pattern_en_US (ToLocalTime rule date);
               y = getNum parts ''year'';
               m = getNum parts ''month'';
               d = getNum parts ''day'';
               hh = getNum parts ''hour'';
               mm = getNum parts ''minute'';
               ss = getNum parts ''second'';
               utcAsIf = Date_UTC y (num_sub m (Num 1)) d hh mm ss
           in Inr (round_div (num_sub utcAsIf (Num date)) 60000)))"

subsection \<open>diffLabel\<close>

text \<open>The minus sign U+2212 of the source, in UTF-8.\<close>

definition minus_sign :: string where
  "minus_sign = [char_of (226::nat), char_of (136::nat), char_of (146::nat)]"

text \<open>\<open>x >= 0\<close>, \<open>Math.abs(x)\<close>, \<open>Math.floor(x / k)\<close> and \<open>x % k\<close> (the remainder takes the
  sign of \<open>x\<close>) for \<open>k > 0\<close>, and the truth value of a number in a condition.\<close>

definition num_ge0 :: "number \<Rightarrow> bool" where
  "num_ge0 x = (case x of NaN \<Rightarrow> False | Num i \<Rightarrow> 0 \<le> i)"

definition num_abs :: "number \<Rightarrow> number" where
  "num_abs x = (case x of NaN \<Rightarrow> NaN | Num i \<Rightarrow> Num \<bar>i\<bar>)"

definition floor_div :: "number \<Rightarrow> int \<Rightarrow> number" where
  "floor_div x k = (case x of NaN \<Rightarrow> NaN | Num i \<Rightarrow> Num (i div k))"

definition num_rem :: "number \<Rightarrow> int \<Rightarrow> number" where
  "num_rem x k = (case x of NaN \<Rightarrow> NaN | Num i \<Rightarrow> Num (sgn i * (\<bar>i\<bar> mod k)))"

definition truthy :: "number \<Rightarrow> bool" where
  "truthy x = (case x of NaN \<Rightarrow> False | Num i \<Rightarrow> i \<noteq> 0)"

definition label :: "number \<Rightarrow> string" where
  "label diff =
     (let sign = (if num_ge0 diff then ''+'' else minus_sign);
          abs = num_abs diff;
          h = floor_div abs 60;
          m = num_rem abs 60
      in if truthy m then sign @ toString h @ ''h '' @ toString m @ ''m''
         else sign @ toString h @ ''h'')"

definition diffLabel :: "env \<Rightarrow> string \<Rightarrow> int \<Rightarrow> error + string" where
  "diffLabel e targetZone date =
     (case offsetMinutes e targetZone date of
        Inl err \<Rightarrow> Inl err
      | Inr a \<Rightarrow>
          (case offsetMinutes e (deviceZone e) date of
             Inl err \<Rightarrow> Inl err
           | Inr b \<Rightarrow> Inr (label (num_sub a b))))"

subsection \<open>dayRelative\<close>

datatype day_label = Today | Tomorrow | Yesterday

definition toNum :: "string \<Rightarrow> number" where
  "toNum k = Number_of (remove_all CHR ''-'' k)"

definition num_gt0 :: "number \<Rightarrow> bool" where
  "num_gt0 x = (case x of NaN \<Rightarrow> False | Num i \<Rightarrow> 0 < i)"

definition classify :: "string \<Rightarrow> string \<Rightarrow> day_label" where
  "classify target device =
     (if target = device then Today
      else (let delta = num_sub (toNum target) (toNum device)
            in if delta = Num 1 then Tomorrow
               else if delta = Num (- 1) then Yesterday
               else if num_gt0 delta then Tomorrow else Yesterday))"

definition dayRelative :: "env \<Rightarrow> string \<Rightarrow> int \<Rightarrow> error + day_label" where
  "dayRelative e targetZone date =
     (case dayKey e date (deviceZone e) of
        Inl err \<Rightarrow> Inl err
      | Inr device \<Rightarrow>
          (case dayKey e date targetZone of
             Inl err \<Rightarrow> Inl err
           | Inr target \<Rightarrow> Inr (classify target device)))"

subsection \<open>timeHHmm\<close>

definition timeHHmm :: "env \<Rightarrow> string \<Rightarrow> int \<Rightarrow> error + string" where
  "timeHHmm e targetZone date =
     (case DateTimeFormat e targetZone of
        Inl err \<Rightarrow> Inl err
      | Inr rule \<Rightarrow> Inr (format (hourCycle24 e ''en-GB'') pattern_en_GB (ToLocalTime rule date)))"

subsection \<open>getAllZones\<close>

record TimeZoneItem =
  zone_id :: string
  city :: string
  country :: "string option"

text \<open>\<open>new Map(pairs)\<close> sets the pairs in order, so of two pairs with one key the later one
  stays; \<open>get\<close> is \<open>None\<close> for \<open>undefined\<close>.\<close>

definition Map_of :: "('k \<times> 'v) list \<Rightarrow> 'k \<Rightarrow> 'v option" where
  "Map_of pairs = map_of (rev pairs)"

text \<open>
  \<open>Array.prototype.sort\<close> with a comparator. ECMA-262 fixes the result when the comparator
  is consistent: the stable sorted arrangement, which insertion from the right computes.
  With an inconsistent comparator the order is left to the implementation.
\<close>

fun insert_by :: "('a \<Rightarrow> 'a \<Rightarrow> int) \<Rightarrow> 'a \<Rightarrow> 'a list \<Rightarrow> 'a list" where
  "insert_by cmp x [] = [x]"
| "insert_by cmp x (y # ys) = (if cmp x y \<le> 0 then x # y # ys else y # insert_by cmp x ys)"

definition sort_by :: "('a \<Rightarrow> 'a \<Rightarrow> int) \<Rightarrow> 'a list \<Rightarrow> 'a list" where
  "sort_by cmp xs = foldr (insert_by cmp) xs []"

definition getAllZones :: "env \<Rightarrow> TimeZoneItem list" where
  "getAllZones e =
     (let ids0 = (case supportedValuesOf e of
                    Absent \<Rightarrow> None
                  | Throws \<Rightarrow> None
                  | Returns xs \<Rightarrow> Some xs);
          ids = (case ids0 of None \<Rightarrow> timeZonesNames e | Some xs \<Rightarrow> xs);
          tzMeta = getTimeZones e;
          enrich = Map_of (map (\<lambda>z. (name z, z)) tzMeta);
          items = map (\<lambda>i. \<lparr>zone_id = i, city = cityFromZoneId i,
                             country = map_option countryName (enrich i)\<rparr>) ids
      in sort_by (\<lambda>a b. localeCompare e (city a) (city b)) items)"

section \<open>The specification's wording\<close>

text \<open>
  The day number of the date \<open>year-month-day\<close> of the proleptic Gregorian calendar, the
  month counted from 1, and the time value of the UTC instant with given calendar
  fields: what it means to read six field values as a UTC instant.
\<close>

definition civil_day :: "int \<Rightarrow> int \<Rightarrow> int \<Rightarrow> int" where
  "civil_day y m d =
     DayFromYear y + monthStart (if DaysInYear y = 366 then 1 else 0) (m - 1) + d - 1"

definition utc_instant :: "int \<Rightarrow> int \<Rightarrow> int \<Rightarrow> int \<Rightarrow> int \<Rightarrow> int \<Rightarrow> int" where
  "utc_instant y m d h mi s =
     civil_day y m d * 86400000 + h * 3600000 + mi * 60000 + s * 1000"

text \<open>\<open>r\<close> minutes is a nearest whole number of minutes to \<open>x\<close> milliseconds.\<close>

definition nearest_minute :: "int \<Rightarrow> int \<Rightarrow> bool" where
  "nearest_minute r x = (2 * \<bar>x - 60000 * r\<bar> \<le> 60000)"

text \<open>
  The computation the specification gives for \<open>offsetMinutes\<close>: the zone-local fields of
  the instant, read as a UTC instant, minus the instant.
\<close>

definition local_as_utc :: "hour_cycle \<Rightarrow> (int \<Rightarrow> int) \<Rightarrow> int \<Rightarrow> int" where
  "local_as_utc hc rule t =
     (let tz = ToLocalTime rule t
      in utc_instant (field_value hc F_year tz) (field_value hc F_month tz)
           (field_value hc F_day tz) (field_value hc F_hour tz)
           (field_value hc F_minute tz) (field_value hc F_second tz))"

text \<open>The calendar date of a zone at an instant as one integer: 2024-06-15 is 20240615.\<close>

definition date_number :: "(int \<Rightarrow> int) \<Rightarrow> int \<Rightarrow> int" where
  "date_number rule t =
     (let tz = ToLocalTime rule t
      in field_value H23 F_year tz * 10000 + field_value H23 F_month tz * 100
         + field_value H23 F_day tz)"

text \<open>
  The specification's rendering of a difference of \<open>d\<close> minutes: a plus sign when \<open>d\<close> is
  not negative and otherwise the minus sign U+2212 (in UTF-8 the bytes E2, 88 and 92),
  then the whole hours of the magnitude, then the remaining minutes unless they are zero.
\<close>

definition spec_label :: "int \<Rightarrow> string" where
  "spec_label d =
     (let h = \<bar>d\<bar> div 60; m = \<bar>d\<bar> mod 60;
          sign = (if 0 \<le> d then ''+'' else [CHR 0xE2, CHR 0x88, CHR 0x92])
      in if m = 0 then sign @ dec (nat h) @ ''h''
         else sign @ dec (nat h) @ ''h '' @ dec (nat m) @ ''m'')"

section \<open>Auxiliary definitions\<close>

text \<open>
  The time value that \<open>offsetMinutes\<close> hands to \<open>TimeClip\<close> inside \<open>Date.UTC\<close>: the
  en-US fields of the local time \<open>tz\<close>, the year through \<open>MakeFullYear\<close>.
\<close>

definition unclipped :: "hour_cycle \<Rightarrow> int \<Rightarrow> int" where
  "unclipped hc tz =
     MakeDate (MakeDay (MakeFullYear (field_value hc F_year tz))
                 (field_value hc F_month tz - 1) (field_value hc F_day tz))
       (MakeTime (field_value hc F_hour tz) (field_value hc F_minute tz)
          (field_value hc F_second tz) 0)"

text \<open>The key of \<open>dayKey\<close> for a year, a month and a day: \<open>YYYY-MM-DD\<close>, the year with as
  many digits as it has.\<close>

definition key_string :: "int \<Rightarrow> int \<Rightarrow> int \<Rightarrow> string" where
  "key_string y m d =
     dec (nat y) @ ''-'' @ [digit_char (nat m div 10), digit_char (nat m mod 10)] @ ''-''
       @ [digit_char (nat d div 10), digit_char (nat d mod 10)]"

text \<open>
  The specification's order of resolution for the list of identifiers: the platform's
  enumeration when there is one and it returns, the bundled list otherwise.
\<close>

definition resolved_ids :: "env \<Rightarrow> string list" where
  "resolved_ids e =
     (case supportedValuesOf e of
        Returns xs \<Rightarrow> xs
      | Absent \<Rightarrow> timeZonesNames e
      | Throws \<Rightarrow> timeZonesNames e)"

section \<open>Example environments\<close>

text \<open>
  A device in New York with rules for a few zones, taken from the IANA database: UTC;
  London with summer time in 2024 (from 2024-03-31T01:00Z to 2024-10-27T01:00Z); Tokyo;
  New York and Los Angeles with daylight time in 2024 (from 2024-03-10 to 2024-11-03);
  Manila, whose local mean time was 15 h 56 min 8 s behind UTC until the end of 1844.
  Midnight is hour 0, there is no \<open>Intl.supportedValuesOf\<close>, and strings are compared by
  length and then by their first character.
\<close>

definition example_rules :: "string \<Rightarrow> (int \<Rightarrow> int) option" where
  "example_rules z =
     (if z = ''UTC'' then Some (\<lambda>t. 0)
      else if z = ''Europe/London'' then
        Some (\<lambda>t. if 1711846800000 \<le> t \<and> t < 1729990800000 then 3600000 else 0)
      else if z = ''Asia/Tokyo'' then Some (\<lambda>t. 32400000)
      else if z = ''America/New_York'' then
        Some (\<lambda>t. if 1710054000000 \<le> t \<and> t < 1730613600000 then - 14400000 else - 18000000)
      else if z = ''America/Los_Angeles'' then
        Some (\<lambda>t. if 1710064800000 \<le> t \<and> t < 1730624400000 then - 25200000 else - 28800000)
      else if z = ''Asia/Manila'' then
        Some (\<lambda>t. if t < - 3944621032000 then - 57368000 else 28800000)
      else None)"

definition example_compare :: "string \<Rightarrow> string \<Rightarrow> int" where
  "example_compare a b =
     (if length a \<noteq> length b then int (length a) - int (length b)
      else int (of_char (hd (a @ ''0''))) - int (of_char (hd (b @ ''0''))))"

definition example_env :: env where
  "example_env =
     \<lparr> timeZoneRules = example_rules,
       hourCycle24 = (\<lambda>l. H23),
       resolvedTimeZone = ''America/New_York'',
       supportedValuesOf = Absent,
       timeZonesNames = [''Asia/Tokyo'', ''Europe/London'', ''UTC'', ''America/New_York''],
       getTimeZones = [\<lparr>name = ''Asia/Tokyo'', countryName = ''Japan''\<rparr>,
                       \<lparr>name = ''Europe/London'', countryName = ''United Kingdom''\<rparr>,
                       \<lparr>name = ''America/New_York'', countryName = ''United States''\<rparr>],
       localeCompare = example_compare \<rparr>"

text \<open>The same platform with midnight as hour 24, one on a device in Tokyo, and one whose
  enumeration works.\<close>

definition example_env_h24 :: env where
  "example_env_h24 = example_env \<lparr> hourCycle24 := (\<lambda>l. H24) \<rparr>"

definition example_env_Tokyo :: env where
  "example_env_Tokyo = example_env \<lparr> resolvedTimeZone := ''Asia/Tokyo'' \<rparr>"

definition example_env_enum :: env where
  "example_env_enum =
     example_env \<lparr> supportedValuesOf := Returns [''Europe/London'', ''Asia/Manila''] \<rparr>"

section \<open>Properties of cityFromZoneId\<close>

lemma split_not_Nil: "split c s \<noteq> []"
  by (induction s) (auto split: list.splits)

lemma length_split: "length (split c s) = Suc (length (filter (\<lambda>x. x = c) s))"
  by (induction s) (auto split: list.splits)

lemma split_no_sep: "c \<notin> set s \<Longrightarrow> split c s = [s]"
  by (induction s) auto

lemma last_split_Cons:
  "last (split c (x # xs)) =
     (if x \<noteq> c \<and> c \<notin> set xs then x # xs else last (split c xs))"
proof (cases "x = c")
  case True
  then show ?thesis using split_not_Nil [of c xs] by simp
next
  case False
  show ?thesis
  proof (cases "c \<in> set xs")
    case True
    then have "filter (\<lambda>x. x = c) xs \<noteq> []"
      by (auto simp: filter_empty_conv)
    then have "length (split c xs) \<ge> 2"
      by (cases "filter (\<lambda>x. x = c) xs") (simp_all add: length_split)
    then obtain s t ts where "split c xs = s # t # ts"
      by (cases "split c xs"; cases "tl (split c xs)") auto
    then show ?thesis using False True by simp
  next
    case False
    then show ?thesis using \<open>x \<noteq> c\<close> by (simp add: split_no_sep)
  qed
qed

lemma after_last_Cons:
  "after_last c (x # xs) =
     (if x \<noteq> c \<and> c \<notin> set xs then x # xs else after_last c xs)"
proof (cases "c \<in> set xs")
  case True
  then have "takeWhile (\<lambda>y. y \<noteq> c) (rev xs @ [x]) = takeWhile (\<lambda>y. y \<noteq> c) (rev xs)"
    by (intro takeWhile_append1 [of c]) auto
  then show ?thesis using True by (simp add: after_last_def)
next
  case False
  then have a: "takeWhile (\<lambda>y. y \<noteq> c) (rev xs @ [x]) = rev xs @ takeWhile (\<lambda>y. y \<noteq> c) [x]"
    by (intro takeWhile_append2) auto
  have b: "takeWhile (\<lambda>y. y \<noteq> c) (rev xs) = rev xs"
    using False by auto
  show ?thesis using False by (simp add: after_last_def a b)
qed

lemma last_split: "last (split c s) = after_last c s"
proof (induction s)
  case Nil
  show ?case by (simp add: after_last_def)
next
  case (Cons x xs)
  show ?case
    unfolding last_split_Cons after_last_Cons using Cons.IH by simp
qed

lemma cityFromZoneId_eq:
  "cityFromZoneId zid = replace_all CHR ''_'' CHR '' '' (after_last CHR ''/'' zid)"
  by (simp add: cityFromZoneId_def pop_def split_not_Nil last_split)

section \<open>Decimal digits\<close>

lemma is_digit_digit_char: "n < 10 \<Longrightarrow> is_digit (digit_char n)"
  by (simp add: is_digit_def digit_char_def)

lemma digit_val_digit_char: "n < 10 \<Longrightarrow> digit_val (digit_char n) = n"
  by (simp add: digit_val_def digit_char_def)

lemma digit_char_not_hyphen: "n < 10 \<Longrightarrow> digit_char n \<noteq> CHR ''-''"
  by (auto simp: digit_char_def dest!: arg_cong [where f = "of_char :: char \<Rightarrow> nat"])

lemma digit_char_0: "digit_char 0 = CHR ''0''"
  by code_simp

lemma dec_digits: "list_all is_digit (dec n)"
proof (induction n rule: dec.induct)
  case (1 n)
  show ?case
  proof (cases "n < 10")
    case True
    then show ?thesis by (subst dec.simps) (simp add: is_digit_digit_char)
  next
    case False
    then show ?thesis using 1 by (subst dec.simps) (simp add: is_digit_digit_char)
  qed
qed

lemma digits_val_snoc: "digits_val (s @ [c]) = 10 * digits_val s + digit_val c"
  by (simp add: digits_val_def)

lemma digits_val_dec: "digits_val (dec n) = n"
proof (induction n rule: dec.induct)
  case (1 n)
  show ?case
  proof (cases "n < 10")
    case True
    then show ?thesis by (subst dec.simps) (simp add: digits_val_def digit_val_digit_char)
  next
    case False
    then have "digits_val (dec n) = 10 * digits_val (dec (n div 10)) + n mod 10"
      by (subst dec.simps) (simp add: digits_val_snoc digit_val_digit_char)
    then show ?thesis using 1 False by simp
  qed
qed

lemma Number_of_dec: "Number_of (dec n) = Num (int n)"
  by (simp add: Number_of_def dec_digits digits_val_dec)

lemma dec_no_hyphen: "CHR ''-'' \<notin> set (dec n)"
proof (induction n rule: dec.induct)
  case (1 n)
  show ?case
  proof (cases "n < 10")
    case True
    then show ?thesis using digit_char_not_hyphen [of n] by (subst dec.simps) auto
  next
    case False
    then show ?thesis using 1 digit_char_not_hyphen [of "n mod 10"] by (subst dec.simps) auto
  qed
qed

lemma dec_small: "n < 10 \<Longrightarrow> dec n = [digit_char n]"
  by (subst dec.simps) simp

lemma dec_two: "10 \<le> n \<Longrightarrow> n < 100 \<Longrightarrow> dec n = [digit_char (n div 10), digit_char (n mod 10)]"
  by (subst dec.simps) (simp add: dec_small)

lemma length_dec_ge: "10 \<le> n \<Longrightarrow> 2 \<le> length (dec n)"
proof -
  assume "10 \<le> n"
  then have "dec n = dec (n div 10) @ [digit_char (n mod 10)]" by (subst dec.simps) simp
  moreover have "dec (n div 10) \<noteq> []" by (subst dec.simps) simp
  ultimately show ?thesis by (cases "dec (n div 10)") simp_all
qed

lemma format_value_TwoDigit:
  assumes "0 \<le> v" "v < 100"
  shows "format_value TwoDigit v = [digit_char (nat v div 10), digit_char (nat v mod 10)]"
proof (cases "v < 10")
  case True
  then have "dec (nat v) = [digit_char (nat v)]" using assms by (intro dec_small) simp
  then show ?thesis using True assms by (simp add: format_value_def digit_char_0)
next
  case False
  then have "dec (nat v) = [digit_char (nat v div 10), digit_char (nat v mod 10)]"
    using assms by (intro dec_two) simp_all
  then show ?thesis using False by (simp add: format_value_def)
qed

lemma Number_of_TwoDigit:
  assumes "0 \<le> v" "v < 100"
  shows "Number_of (format_value TwoDigit v) = Num v"
proof -
  have "nat v div 10 < 10" "nat v mod 10 < 10" using assms by simp_all
  then show ?thesis
    using assms
    by (simp add: format_value_TwoDigit Number_of_def is_digit_digit_char digits_val_def
        digit_val_digit_char)
qed

lemma Number_of_Numeric: "0 \<le> v \<Longrightarrow> Number_of (format_value Numeric v) = Num v"
  by (simp add: format_value_def Number_of_dec)

section \<open>The calendar\<close>

subsection \<open>Years\<close>

lemma div_bounds:
  fixes x k :: int
  assumes "0 < k"
  shows "k * (x div k) \<le> x" and "x \<le> k * (x div k) + k - 1"
proof -
  have e: "k * (x div k) + x mod k = x" by simp
  have "0 \<le> x mod k" "x mod k < k" using assms by simp_all
  then show "k * (x div k) \<le> x" and "x \<le> k * (x div k) + k - 1" using e by linarith+
qed

lemma div_succ:
  fixes x k :: int
  assumes "0 < k"
  shows "(x + 1) div k = x div k + (if (x + 1) mod k = 0 then 1 else 0)"
proof -
  define q where "q = x div k"
  define r where "r = x mod k"
  have x: "x = k * q + r" by (simp add: q_def r_def)
  have r: "0 \<le> r" "r < k" using assms by (simp_all add: r_def)
  show ?thesis
  proof (cases "r + 1 < k")
    case True
    have eq: "x + 1 = k * q + (r + 1)" using x by simp
    have "(x + 1) div k = q" using eq r True by (intro int_div_pos_eq [of _ _ _ "r + 1"]) auto
    moreover have "(x + 1) mod k = r + 1" using eq r True by (intro int_mod_pos_eq [of _ _ q]) auto
    ultimately show ?thesis using r by (simp add: q_def)
  next
    case False
    then have rk: "r + 1 = k" using r by simp
    have eq: "x + 1 = k * (q + 1) + 0" using x rk by (simp add: algebra_simps)
    have "(x + 1) div k = q + 1" using eq assms by (intro int_div_pos_eq [of _ _ _ 0]) auto
    moreover have "(x + 1) mod k = 0" using eq assms by (intro int_mod_pos_eq [of _ _ "q + 1"]) auto
    ultimately show ?thesis by (simp add: q_def)
  qed
qed

lemma mod_shift:
  fixes y :: int
  shows "(y - 1968) mod 4 = y mod 4" "(y - 1900) mod 100 = y mod 100" "(y - 1600) mod 400 = y mod 400"
proof -
  have "(y - 4 * 492) mod 4 = y mod 4" by (rule mod_diff_eq [symmetric, THEN trans]) simp
  then show "(y - 1968) mod 4 = y mod 4" by simp
  have "(y - 100 * 19) mod 100 = y mod 100" by (rule mod_diff_eq [symmetric, THEN trans]) simp
  then show "(y - 1900) mod 100 = y mod 100" by simp
  have "(y - 400 * 4) mod 400 = y mod 400" by (rule mod_diff_eq [symmetric, THEN trans]) simp
  then show "(y - 1600) mod 400 = y mod 400" by simp
qed

lemma mod_400_100: "(y::int) mod 400 = 0 \<Longrightarrow> y mod 100 = 0"
  by presburger
lemma mod_100_4: "(y::int) mod 100 = 0 \<Longrightarrow> y mod 4 = 0"
  by presburger

lemma DayFromYear_Suc: "DayFromYear (y + 1) = DayFromYear y + DaysInYear y"
proof -
  have a: "(y + 1 - 1969) div 4 = (y - 1969) div 4 + (if y mod 4 = 0 then 1 else 0)"
    using div_succ [of 4 "y - 1969"] mod_shift(1) [of y] by (simp add: algebra_simps)
  have b: "(y + 1 - 1901) div 100 = (y - 1901) div 100 + (if y mod 100 = 0 then 1 else 0)"
    using div_succ [of 100 "y - 1901"] mod_shift(2) [of y] by (simp add: algebra_simps)
  have c: "(y + 1 - 1601) div 400 = (y - 1601) div 400 + (if y mod 400 = 0 then 1 else 0)"
    using div_succ [of 400 "y - 1601"] mod_shift(3) [of y] by (simp add: algebra_simps)
  show ?thesis
    unfolding DayFromYear_def DaysInYear_def a b c
    using mod_400_100 [of y] mod_100_4 [of y] by auto
qed


lemma DaysInYear_cases: "DaysInYear y = 365 \<or> DaysInYear y = 366"
  by (simp add: DaysInYear_def)

lemma DayFromYear_envelope:
  "146097 * y \<le> 400 * DayFromYear y + 287811596"
  "400 * DayFromYear y \<le> 146097 * y - 287810501"
proof -
  define a where "a = (y - 1969) div 4"
  define b where "b = (y - 1901) div 100"
  define c where "c = (y - 1601) div 400"
  have a: "4 * a \<le> y - 1969" "y - 1969 \<le> 4 * a + 4 - 1"
    unfolding a_def by (rule div_bounds, simp)+
  have b: "100 * b \<le> y - 1901" "y - 1901 \<le> 100 * b + 100 - 1"
    unfolding b_def by (rule div_bounds, simp)+
  have c: "400 * c \<le> y - 1601" "y - 1601 \<le> 400 * c + 400 - 1"
    unfolding c_def by (rule div_bounds, simp)+
  have d: "DayFromYear y = 365 * (y - 1970) + a - b + c"
    by (simp add: DayFromYear_def a_def b_def c_def)
  show "146097 * y \<le> 400 * DayFromYear y + 287811596"
    unfolding d using a b c by simp
  show "400 * DayFromYear y \<le> 146097 * y - 287810501"
    unfolding d using a b c by simp
qed

lemma YearFromDay_unfold:
  fixes d :: int
  defines "y \<equiv> 1970 + (400 * d) div 146097"
  shows "YearFromDay d =
     (if d < DayFromYear y then y - 1 else if DayFromYear (y + 1) \<le> d then y + 1 else y)"
    and "146097 * y \<le> 400 * d + 287811090" and "400 * d \<le> 146097 * y - 287664994"
proof -
  show "YearFromDay d =
     (if d < DayFromYear y then y - 1 else if DayFromYear (y + 1) \<le> d then y + 1 else y)"
    by (simp add: YearFromDay_def Let_def y_def)
  have q: "146097 * ((400 * d) div 146097) \<le> 400 * d"
      "400 * d \<le> 146097 * ((400 * d) div 146097) + 146097 - 1"
    by (rule div_bounds, simp)+
  show "146097 * y \<le> 400 * d + 287811090" using q(1) by (simp add: y_def)
  show "400 * d \<le> 146097 * y - 287664994" using q(2) by (simp add: y_def)
qed

lemma YearFromDay_lower: "DayFromYear (YearFromDay d) \<le> d"
proof -
  define y where "y = 1970 + (400 * d) div 146097"
  note u = YearFromDay_unfold [of d, folded y_def]
  show ?thesis
  proof (cases "d < DayFromYear y")
    case True
    have "400 * DayFromYear (y - 1) \<le> 146097 * (y - 1) - 287810501"
      by (rule DayFromYear_envelope)
    then have "DayFromYear (y - 1) \<le> d" using u(2) by simp
    then show ?thesis using True u(1) by simp
  next
    case False
    then show ?thesis using u(1) by simp
  qed
qed

lemma YearFromDay_upper: "d < DayFromYear (YearFromDay d + 1)"
proof -
  define y where "y = 1970 + (400 * d) div 146097"
  note u = YearFromDay_unfold [of d, folded y_def]
  show ?thesis
  proof (cases "d < DayFromYear y")
    case True
    then show ?thesis using u(1) by simp
  next
    case False
    show ?thesis
    proof (cases "DayFromYear (y + 1) \<le> d")
      case True
      have "146097 * (y + 1 + 1) \<le> 400 * DayFromYear (y + 1 + 1) + 287811596"
        by (rule DayFromYear_envelope)
      then have "d < DayFromYear (y + 1 + 1)" using u(3) by simp
      then show ?thesis using u(1) False True by simp
    next
      case F2: False
      then show ?thesis using u(1) False by simp
    qed
  qed
qed

lemma DayFromYear_strict_mono:
  assumes "y < z"
  shows "DayFromYear y < DayFromYear z"
proof -
  have "y + 1 \<le> z" using assms by simp
  then have "DayFromYear (y + 1) \<le> DayFromYear z"
  proof (induction z rule: int_ge_induct)
    case base
    show ?case by simp
  next
    case (step i)
    have "DayFromYear i \<le> DayFromYear (i + 1)"
      using DaysInYear_cases [of i] by (auto simp: DayFromYear_Suc)
    then show ?case using step.IH by simp
  qed
  moreover have "DayFromYear y < DayFromYear (y + 1)"
    using DaysInYear_cases [of y] by (auto simp: DayFromYear_Suc)
  ultimately show ?thesis by simp
qed

lemma YearFromDay_greatest:
  assumes "DayFromYear y \<le> d"
  shows "y \<le> YearFromDay d"
proof (rule ccontr)
  assume "\<not> y \<le> YearFromDay d"
  then have "YearFromDay d + 1 \<le> y" by simp
  then have "DayFromYear (YearFromDay d + 1) \<le> DayFromYear y"
    using DayFromYear_strict_mono [of "YearFromDay d + 1" y] by (cases "YearFromDay d + 1 = y") auto
  then show False using YearFromDay_upper [of d] assms by simp
qed

lemma YearFromDay_unique:
  assumes "DayFromYear y \<le> d" and "d < DayFromYear (y + 1)"
  shows "YearFromDay d = y"
proof -
  have "y \<le> YearFromDay d" using assms(1) by (rule YearFromDay_greatest)
  moreover have "YearFromDay d \<le> y"
  proof (rule ccontr)
    assume "\<not> YearFromDay d \<le> y"
    then have "y + 1 \<le> YearFromDay d" by simp
    then have "DayFromYear (y + 1) \<le> DayFromYear (YearFromDay d)"
      using DayFromYear_strict_mono [of "y + 1" "YearFromDay d"] by (cases "y + 1 = YearFromDay d") auto
    then show False using YearFromDay_lower [of d] assms(2) by simp
  qed
  ultimately show ?thesis by simp
qed

subsection \<open>Months, dates and the time within the day\<close>

lemma DayWithinYear_bounds:
  "0 \<le> DayWithinYear t" "DayWithinYear t < 365 + InLeapYear t"
proof -
  show "0 \<le> DayWithinYear t"
    using YearFromDay_lower [of "Day t"] by (simp add: DayWithinYear_def YearFromTime_def)
  have "Day t < DayFromYear (YearFromTime t) + DaysInYear (YearFromTime t)"
    using YearFromDay_upper [of "Day t"] by (simp add: YearFromTime_def DayFromYear_Suc)
  then show "DayWithinYear t < 365 + InLeapYear t"
    using DaysInYear_cases [of "YearFromTime t"]
    by (auto simp: DayWithinYear_def InLeapYear_def)
qed

lemma InLeapYear_cases: "InLeapYear t = 0 \<or> InLeapYear t = 1"
  by (simp add: InLeapYear_def)

lemma MonthFromTime_range: "0 \<le> MonthFromTime t \<and> MonthFromTime t \<le> 11"
  by (simp add: MonthFromTime_def Let_def)

lemma DateFromTime_range: "1 \<le> DateFromTime t \<and> DateFromTime t \<le> 31"
  using DayWithinYear_bounds [of t] InLeapYear_cases [of t]
  unfolding DateFromTime_def MonthFromTime_def monthStart_def Let_def
  by auto

lemma MakeDay_inverse:
  "MakeDay (YearFromTime t) (MonthFromTime t) (DateFromTime t) = Day t"
proof -
  have m: "MonthFromTime t div 12 = 0" "MonthFromTime t mod 12 = MonthFromTime t"
    using MonthFromTime_range [of t] by simp_all
  show ?thesis
    unfolding MakeDay_def Let_def m
    by (simp add: DateFromTime_def InLeapYear_def DayWithinYear_def)
qed

lemma time_fields:
  "MakeTime (HourFromTime t) (MinFromTime t) (SecFromTime t) 0 = TimeWithinDay t - t mod 1000"
proof -
  define s where "s = t div 1000"
  define m where "m = s div 60"
  define h where "h = m div 60"
  define d where "d = h div 24"
  have t: "t = 1000 * s + t mod 1000" by (simp add: s_def)
  have s: "s = 60 * m + s mod 60" by (simp add: m_def)
  have m: "m = 60 * h + m mod 60" by (simp add: h_def)
  have h: "h = 24 * d + h mod 24" by (simp add: d_def)
  have r: "0 \<le> t mod 1000" "t mod 1000 < 1000" "0 \<le> s mod 60" "s mod 60 < 60"
    "0 \<le> m mod 60" "m mod 60 < 60" "0 \<le> h mod 24" "h mod 24 < 24" by simp_all
  have dm: "t div 60000 = m"
    using t s r by (intro int_div_pos_eq [of _ _ _ "1000 * (s mod 60) + t mod 1000"]) auto
  have dh: "t div 3600000 = h"
    using t s m r
    by (intro int_div_pos_eq [of _ _ _ "60000 * (m mod 60) + 1000 * (s mod 60) + t mod 1000"]) auto
  have dd: "t mod 86400000 = 3600000 * (h mod 24) + 60000 * (m mod 60) + 1000 * (s mod 60) + t mod 1000"
    using t s m h r
    by (intro int_mod_pos_eq [of _ _ d]) auto
  show ?thesis
    unfolding MakeTime_def HourFromTime_def MinFromTime_def SecFromTime_def TimeWithinDay_def
      msPerDay_def msPerHour_def msPerMinute_def msPerSecond_def dm dh dd
    by (simp add: s_def [symmetric])
qed

lemma Day_TimeWithinDay: "MakeDate (Day t) (TimeWithinDay t) = t"
  by (simp add: MakeDate_def Day_def TimeWithinDay_def)

lemma MakeDate_fields:
  "MakeDate (MakeDay (YearFromTime t) (MonthFromTime t) (DateFromTime t))
            (MakeTime (HourFromTime t) (MinFromTime t) (SecFromTime t) 0) = t - t mod 1000"
  using Day_TimeWithinDay [of t]
  by (simp add: MakeDay_inverse time_fields MakeDate_def)

lemma monthStart_bounds:
  assumes "0 \<le> m" "m \<le> 11" "l = 0 \<or> l = 1"
  shows "0 \<le> monthStart l m" "monthStart l m < 365 + l"
  using assms by (auto simp: monthStart_def)

lemma MakeDay_first:
  fixes year month :: int
  defines "t \<equiv> MakeDay year month 1 * msPerDay"
  shows "YearFromTime t = year + month div 12 \<and> MonthFromTime t = month mod 12 \<and> DateFromTime t = 1"
proof -
  define ym where "ym = year + month div 12"
  define mn where "mn = month mod 12"
  define l :: int where "l = (if DaysInYear ym = 366 then 1 else 0)"
  have mn: "0 \<le> mn" "mn \<le> 11" by (simp_all add: mn_def)
  have l: "l = 0 \<or> l = 1" by (simp add: l_def)
  have day: "Day t = DayFromYear ym + monthStart l mn"
    by (simp add: t_def MakeDay_def Let_def Day_def msPerDay_def ym_def mn_def l_def)
  have len: "DaysInYear ym = 365 + l"
    using DaysInYear_cases [of ym] by (auto simp: l_def)
  have y: "YearFromTime t = ym"
    unfolding YearFromTime_def day
    using monthStart_bounds [OF mn l] by (intro YearFromDay_unique) (simp_all add: DayFromYear_Suc len)
  have leap: "InLeapYear t = l" by (simp add: InLeapYear_def y l_def)
  have dwy: "DayWithinYear t = monthStart l mn" by (simp add: DayWithinYear_def y day)
  have "mn = 0 \<or> mn = 1 \<or> mn = 2 \<or> mn = 3 \<or> mn = 4 \<or> mn = 5 \<or> mn = 6
      \<or> mn = 7 \<or> mn = 8 \<or> mn = 9 \<or> mn = 10 \<or> mn = 11"
    using mn by arith
  then have m: "MonthFromTime t = mn"
    unfolding MonthFromTime_def Let_def dwy leap
    using l by (elim disjE) (auto simp: monthStart_def)
  have "DateFromTime t = 1" by (simp add: DateFromTime_def dwy leap m)
  then show ?thesis using y m by (simp add: ym_def mn_def)
qed

section \<open>Formatted fields\<close>

lemma field_value_year: "1 \<le> field_value hc F_year tz"
  by (simp add: field_value_def Let_def)

lemma field_value_month: "1 \<le> field_value hc F_month tz \<and> field_value hc F_month tz \<le> 12"
  using MonthFromTime_range [of tz] by (simp add: field_value_def)

lemma field_value_day: "1 \<le> field_value hc F_day tz \<and> field_value hc F_day tz \<le> 31"
  using DateFromTime_range [of tz] by (simp add: field_value_def)

lemma HourFromTime_range: "0 \<le> HourFromTime t \<and> HourFromTime t < 24"
  by (simp add: HourFromTime_def)

lemma field_value_hour: "0 \<le> field_value hc F_hour tz \<and> field_value hc F_hour tz \<le> 24"
  using HourFromTime_range [of tz] by (simp add: field_value_def Let_def)

lemma field_value_hour_H23: "field_value H23 F_hour tz < 24"
  using HourFromTime_range [of tz] by (simp add: field_value_def Let_def)

lemma field_value_minute: "0 \<le> field_value hc F_minute tz \<and> field_value hc F_minute tz < 60"
  by (simp add: field_value_def MinFromTime_def)

lemma field_value_second: "0 \<le> field_value hc F_second tz \<and> field_value hc F_second tz < 60"
  by (simp add: field_value_def SecFromTime_def)

lemma find_value_en_US:
  "find_value (formatToParts hc pattern_en_US tz) ''year'' = Some (format_value Numeric (field_value hc F_year tz))"
  "find_value (formatToParts hc pattern_en_US tz) ''month'' = Some (format_value TwoDigit (field_value hc F_month tz))"
  "find_value (formatToParts hc pattern_en_US tz) ''day'' = Some (format_value TwoDigit (field_value hc F_day tz))"
  "find_value (formatToParts hc pattern_en_US tz) ''hour'' = Some (format_value TwoDigit (field_value hc F_hour tz))"
  "find_value (formatToParts hc pattern_en_US tz) ''minute'' = Some (format_value TwoDigit (field_value hc F_minute tz))"
  "find_value (formatToParts hc pattern_en_US tz) ''second'' = Some (format_value TwoDigit (field_value hc F_second tz))"
  by (simp_all add: find_value_def formatToParts_def pattern_en_US_def format_item_def field_name_def)

lemma find_value_en_CA:
  "find_value (formatToParts hc pattern_en_CA tz) ''year'' = Some (format_value Numeric (field_value hc F_year tz))"
  "find_value (formatToParts hc pattern_en_CA tz) ''month'' = Some (format_value TwoDigit (field_value hc F_month tz))"
  "find_value (formatToParts hc pattern_en_CA tz) ''day'' = Some (format_value TwoDigit (field_value hc F_day tz))"
  by (simp_all add: find_value_def formatToParts_def pattern_en_CA_def format_item_def field_name_def)

lemma getNum_en_US:
  "getNum (formatToParts hc pattern_en_US tz) ''year'' = Num (field_value hc F_year tz)"
  "getNum (formatToParts hc pattern_en_US tz) ''month'' = Num (field_value hc F_month tz)"
  "getNum (formatToParts hc pattern_en_US tz) ''day'' = Num (field_value hc F_day tz)"
  "getNum (formatToParts hc pattern_en_US tz) ''hour'' = Num (field_value hc F_hour tz)"
  "getNum (formatToParts hc pattern_en_US tz) ''minute'' = Num (field_value hc F_minute tz)"
  "getNum (formatToParts hc pattern_en_US tz) ''second'' = Num (field_value hc F_second tz)"
  using field_value_year [of hc tz] field_value_month [of hc tz] field_value_day [of hc tz]
    field_value_hour [of hc tz] field_value_minute [of hc tz] field_value_second [of hc tz]
  by (simp_all add: getNum_def find_value_en_US Number_of_Numeric Number_of_TwoDigit)

section \<open>offsetMinutes\<close>

lemma offsetMinutes_fields:
  assumes "timeZoneRules e z = Some rule"
  shows "offsetMinutes e z t =
     Inr (round_div (num_sub (TimeClip (unclipped (hourCycle24 e ''en-US'') (ToLocalTime rule t)))
                       (Num t)) 60000)"
  using assms
  by (simp add: offsetMinutes_def DateTimeFormat_def Let_def getNum_en_US Date_UTC_def
      num_sub_def unclipped_def)

lemma offsetMinutes_clipped:
  assumes "timeZoneRules e z = Some rule"
    and "\<bar>unclipped (hourCycle24 e ''en-US'') (ToLocalTime rule t)\<bar> \<le> 8640000000000000"
  shows "offsetMinutes e z t =
     Inr (Num ((2 * (unclipped (hourCycle24 e ''en-US'') (ToLocalTime rule t) - t) + 60000)
               div 120000))"
  using assms(2)
  by (simp add: offsetMinutes_fields [OF assms(1)] TimeClip_def num_sub_def round_div_def)

lemma offsetMinutes_NaN:
  assumes "timeZoneRules e z = Some rule"
    and "8640000000000000 < \<bar>unclipped (hourCycle24 e ''en-US'') (ToLocalTime rule t)\<bar>"
  shows "offsetMinutes e z t = Inr NaN"
  using assms(2)
  by (simp add: offsetMinutes_fields [OF assms(1)] TimeClip_def num_sub_def round_div_def)

lemma MakeDay_civil_day:
  assumes "1 \<le> m" "m \<le> 12"
  shows "MakeDay y (m - 1) d = civil_day y m d"
proof -
  have "(m - 1) div 12 = 0" "(m - 1) mod 12 = m - 1" using assms by simp_all
  then show ?thesis by (simp add: MakeDay_def civil_day_def Let_def)
qed

lemma unclipped_utc_instant:
  assumes "100 \<le> field_value hc F_year tz"
  shows "unclipped hc tz
         = utc_instant (field_value hc F_year tz) (field_value hc F_month tz)
             (field_value hc F_day tz) (field_value hc F_hour tz)
             (field_value hc F_minute tz) (field_value hc F_second tz)"
  using assms field_value_month [of hc tz]
  by (simp add: unclipped_def MakeDay_civil_day MakeFullYear_def MakeDate_def MakeTime_def
      utc_instant_def msPerDay_def msPerHour_def msPerMinute_def msPerSecond_def)

lemma round_div_nearest: "nearest_minute ((2 * x + 60000) div 120000) x"
proof -
  define q where "q = (2 * x + 60000) div 120000"
  have "120000 * q \<le> 2 * x + 60000" "2 * x + 60000 \<le> 120000 * q + 120000 - 1"
    unfolding q_def by (rule div_bounds, simp)+
  then show ?thesis by (simp add: nearest_minute_def q_def [symmetric] abs_le_iff)
qed

lemma unclipped_roundtrip:
  assumes "100 \<le> YearFromTime tz"
  shows "unclipped hc tz
         = tz - tz mod 1000 + (if hc = H24 \<and> HourFromTime tz = 0 then 86400000 else 0)"
proof -
  have y: "field_value hc F_year tz = YearFromTime tz" "MakeFullYear (YearFromTime tz) = YearFromTime tz"
    using assms by (simp_all add: field_value_def Let_def MakeFullYear_def)
  have h: "field_value hc F_hour tz = HourFromTime tz + (if hc = H24 \<and> HourFromTime tz = 0 then 24 else 0)"
    by (simp add: field_value_def Let_def)
  have "MakeDate (MakeDay (YearFromTime tz) (MonthFromTime tz) (DateFromTime tz))
            (MakeTime (HourFromTime tz) (MinFromTime tz) (SecFromTime tz) 0) = tz - tz mod 1000"
    by (rule MakeDate_fields)
  then show ?thesis
    unfolding unclipped_def y h
    by (simp add: field_value_def MakeDate_def MakeTime_def msPerHour_def msPerDay_def)
qed

text \<open>A time value cut to whole seconds stays in the range of time values.\<close>

lemma whole_seconds_range:
  fixes tz :: int
  assumes "- 8640000000000000 \<le> tz" and "tz \<le> 8640000000000000"
  shows "- 8640000000000000 \<le> tz - tz mod 1000" and "tz - tz mod 1000 \<le> 8640000000000000"
proof -
  have e: "tz - tz mod 1000 = 1000 * (tz div 1000)"
    by (simp add: minus_mod_eq_mult_div)
  have "(- 8640000000000000) div 1000 \<le> tz div 1000"
    using assms(1) by (intro zdiv_mono1) simp_all
  then have "- 8640000000000 \<le> tz div 1000" by simp
  then show "- 8640000000000000 \<le> tz - tz mod 1000" unfolding e by simp
  have "0 \<le> tz mod 1000" by simp
  then show "tz - tz mod 1000 \<le> 8640000000000000" using assms(2) by simp
qed

lemma offsetMinutes_exact:
  assumes "timeZoneRules e z = Some rule"
    and "100 \<le> YearFromTime (ToLocalTime rule t)"
    and "hourCycle24 e ''en-US'' = H23 \<or> HourFromTime (ToLocalTime rule t) \<noteq> 0"
    and "- 8640000000000000 \<le> t + rule t" and "t + rule t \<le> 8640000000000000"
  shows "offsetMinutes e z t =
           Inr (Num ((2 * (rule t - (t + rule t) mod 1000) + 60000) div 120000))"
proof -
  have u: "unclipped (hourCycle24 e ''en-US'') (ToLocalTime rule t)
      = t + rule t - (t + rule t) mod 1000"
    using assms(2,3) by (auto simp add: unclipped_roundtrip ToLocalTime_def)
  have r: "\<bar>t + rule t - (t + rule t) mod 1000\<bar> \<le> 8640000000000000"
    using whole_seconds_range [OF assms(4,5)] by (simp add: abs_le_iff)
  have "2 * (t + rule t - (t + rule t) mod 1000 - t) = 2 * (rule t - (t + rule t) mod 1000)"
    by simp
  then show ?thesis
    using offsetMinutes_clipped [OF assms(1), of t] r unfolding u by simp
qed

lemma rounded_range:
  fixes off r :: int
  assumes "- 43200000 \<le> off" "off \<le> 50400000" "0 \<le> r" "r < 1000"
  shows "- 720 \<le> (2 * (off - r) + 60000) div 120000"
    and "(2 * (off - r) + 60000) div 120000 \<le> 840"
proof -
  define q where "q = (2 * (off - r) + 60000) div 120000"
  have "120000 * q \<le> 2 * (off - r) + 60000" "2 * (off - r) + 60000 \<le> 120000 * q + 120000 - 1"
    unfolding q_def by (rule div_bounds, simp)+
  then show "- 720 \<le> (2 * (off - r) + 60000) div 120000"
    and "(2 * (off - r) + 60000) div 120000 \<le> 840"
    using assms unfolding q_def [symmetric] by simp_all
qed

lemma rounded_whole_minutes:
  fixes k r :: int
  assumes "0 \<le> r" "r < 1000"
  shows "(2 * (60000 * k - r) + 60000) div 120000 = k"
  using assms by (intro int_div_pos_eq [of _ _ _ "60000 - 2 * r"]) simp_all

lemma offsetMinutes_h24_midnight:
  assumes "timeZoneRules e z = Some rule"
    and "100 \<le> YearFromTime (ToLocalTime rule t)"
    and "hourCycle24 e ''en-US'' = H24" and "HourFromTime (ToLocalTime rule t) = 0"
    and "- 8640000000000000 \<le> t + rule t" and "t + rule t \<le> 8639999913600000"
  shows "offsetMinutes e z t =
           Inr (Num ((2 * (rule t - (t + rule t) mod 1000) + 60000) div 120000 + 1440))"
proof -
  have u: "unclipped (hourCycle24 e ''en-US'') (ToLocalTime rule t)
      = t + rule t - (t + rule t) mod 1000 + 86400000"
    using assms(2,3,4) by (simp add: unclipped_roundtrip ToLocalTime_def)
  have "0 \<le> (t + rule t) mod 1000" by simp
  then have r: "\<bar>t + rule t - (t + rule t) mod 1000 + 86400000\<bar> \<le> 8640000000000000"
    using whole_seconds_range(1) [of "t + rule t"] assms(5,6) by (simp add: abs_le_iff)
  have a: "2 * (t + rule t - (t + rule t) mod 1000 + 86400000 - t) + 60000
      = (2 * (rule t - (t + rule t) mod 1000) + 60000) + 1440 * 120000"
    by simp
  have "offsetMinutes e z t =
      Inr (Num ((2 * (t + rule t - (t + rule t) mod 1000 + 86400000 - t) + 60000) div 120000))"
    using offsetMinutes_clipped [OF assms(1), of t] r unfolding u by simp
  then show ?thesis unfolding a by simp
qed

lemma offsetMinutes_nearest:
  assumes "timeZoneRules e z = Some rule"
    and "100 \<le> field_value (hourCycle24 e ''en-US'') F_year (ToLocalTime rule t)"
    and "\<bar>local_as_utc (hourCycle24 e ''en-US'') rule t\<bar> \<le> 8640000000000000"
  shows "\<exists>r. offsetMinutes e z t = Inr (Num r)
           \<and> nearest_minute r (local_as_utc (hourCycle24 e ''en-US'') rule t - t)"
proof -
  define x where "x = local_as_utc (hourCycle24 e ''en-US'') rule t - t"
  have u: "unclipped (hourCycle24 e ''en-US'') (ToLocalTime rule t)
      = local_as_utc (hourCycle24 e ''en-US'') rule t"
    using assms(2) by (simp only: unclipped_utc_instant local_as_utc_def Let_def)
  have "offsetMinutes e z t = Inr (Num ((2 * x + 60000) div 120000))"
    using offsetMinutes_clipped [OF assms(1), of t] assms(3) unfolding u x_def by simp
  then show ?thesis
    using round_div_nearest [of x] unfolding x_def by blast
qed

text \<open>Inside the range of time values, a day short of its end, the result is no \<open>NaN\<close>.\<close>

lemma Day_lower:
  assumes "- 8640000000000000 \<le> tz"
  shows "- 100000000 \<le> Day tz"
proof -
  have "(- 8640000000000000) div 86400000 \<le> tz div 86400000"
    using assms by (intro zdiv_mono1) simp_all
  then show ?thesis by (simp add: Day_def msPerDay_def)
qed

lemma YearFromTime_lower:
  assumes "- 8640000000000000 \<le> tz"
  shows "- 271821 \<le> YearFromTime tz"
proof -
  define v where "v = YearFromTime tz"
  have "Day tz < DayFromYear (v + 1)"
    unfolding v_def YearFromTime_def by (rule YearFromDay_upper)
  moreover have "400 * DayFromYear (v + 1) \<le> 146097 * (v + 1) - 287810501"
    by (rule DayFromYear_envelope)
  ultimately show ?thesis
    using Day_lower [OF assms] unfolding v_def [symmetric] by simp
qed

lemma time_of_day_range:
  "0 \<le> MakeTime (field_value hc F_hour tz) (field_value hc F_minute tz) (field_value hc F_second tz) 0"
  "MakeTime (field_value hc F_hour tz) (field_value hc F_minute tz) (field_value hc F_second tz) 0
     \<le> 89999000"
  using field_value_hour [of hc tz] field_value_minute [of hc tz] field_value_second [of hc tz]
  by (simp_all add: MakeTime_def msPerHour_def msPerMinute_def msPerSecond_def)

lemma unclipped_early_year:
  assumes "YearFromTime tz < 100" and "- 8640000000000000 \<le> tz"
  shows "\<bar>unclipped hc tz\<bar> \<le> 8640000000000000"
proof -
  define Y where "Y = MakeFullYear (field_value hc F_year tz)"
  define l :: int where "l = (if DaysInYear Y = 366 then 1 else 0)"
  define D where "D = DayFromYear Y + monthStart l (MonthFromTime tz) + DateFromTime tz - 1"
  define T where "T = MakeTime (field_value hc F_hour tz) (field_value hc F_minute tz)
    (field_value hc F_second tz) 0"
  have v: "- 271821 \<le> YearFromTime tz" using assms(2) by (rule YearFromTime_lower)
  have Y: "100 \<le> Y" "Y \<le> 271822"
    using assms(1) v by (auto simp add: Y_def field_value_def Let_def MakeFullYear_def)
  have lo: "146097 * Y \<le> 400 * DayFromYear Y + 287811596"
    and hi: "400 * DayFromYear Y \<le> 146097 * Y - 287810501"
    by (rule DayFromYear_envelope)+
  have dfy: "- 683005 \<le> DayFromYear Y" "DayFromYear Y \<le> 98561420"
    using lo hi Y by simp_all
  have m: "0 \<le> MonthFromTime tz" "MonthFromTime tz \<le> 11"
    using MonthFromTime_range [of tz] by simp_all
  have l: "l = 0 \<or> l = 1" by (simp add: l_def)
  have ms: "0 \<le> monthStart l (MonthFromTime tz)" "monthStart l (MonthFromTime tz) < 365 + l"
    using monthStart_bounds [OF m l] by simp_all
  have d: "1 \<le> DateFromTime tz" "DateFromTime tz \<le> 31"
    using DateFromTime_range [of tz] by simp_all
  have D: "- 683005 \<le> D" "D \<le> 98561816"
    using dfy ms d l by (auto simp add: D_def)
  have T: "0 \<le> T" "T \<le> 89999000"
    unfolding T_def by (rule time_of_day_range)+
  have md: "(MonthFromTime tz) div 12 = 0" "(MonthFromTime tz) mod 12 = MonthFromTime tz"
    using m by simp_all
  have fm: "field_value hc F_month tz - 1 = MonthFromTime tz" "field_value hc F_day tz = DateFromTime tz"
    by (simp_all add: field_value_def)
  have "unclipped hc tz = MakeDate (MakeDay Y (MonthFromTime tz) (DateFromTime tz)) T"
    unfolding unclipped_def Y_def [symmetric] fm T_def [symmetric] by (rule refl)
  then have u: "unclipped hc tz = D * 86400000 + T"
    by (simp add: MakeDate_def MakeDay_def Let_def msPerDay_def md l_def [symmetric] D_def)
  show ?thesis
    unfolding u using D T by (simp add: abs_le_iff)
qed

lemma unclipped_in_range:
  assumes "- 8640000000000000 \<le> tz" and "tz \<le> 8639999913600000"
  shows "\<bar>unclipped hc tz\<bar> \<le> 8640000000000000"
proof (cases "100 \<le> YearFromTime tz")
  case True
  define w where "w = tz - tz mod 1000"
  have "0 \<le> tz mod 1000" by simp
  then have w: "w \<le> tz" "- 8640000000000000 \<le> w"
    using whole_seconds_range(1) [of tz] assms by (simp_all add: w_def)
  have u: "unclipped hc tz = w + (if hc = H24 \<and> HourFromTime tz = 0 then 86400000 else 0)"
    by (simp add: unclipped_roundtrip [OF True] w_def)
  show ?thesis
    unfolding u using w assms(2) by (simp add: abs_le_iff)
next
  case False
  then show ?thesis using assms(1) by (intro unclipped_early_year) simp_all
qed

lemma offsetMinutes_Num:
  assumes "timeZoneRules e z = Some rule"
    and "- 8640000000000000 \<le> t + rule t" and "t + rule t \<le> 8639999913600000"
  shows "\<exists>a. offsetMinutes e z t = Inr (Num a)"
  using offsetMinutes_clipped [OF assms(1), of t] unclipped_in_range [OF assms(2,3)]
  by (simp add: ToLocalTime_def)

lemma example_rules_Tokyo: "timeZoneRules example_env ''Asia/Tokyo'' = Some (\<lambda>t. 32400000)"
  by (simp add: example_env_def example_rules_def)

section \<open>diffLabel\<close>

text \<open>An offset of whole minutes is returned as it is: the milliseconds of the instant
  and the truncation of the fields to seconds do not show.\<close>

lemma offsetMinutes_whole_minutes:
  assumes "timeZoneRules e z = Some rule" and "rule t = 60000 * k"
    and "100 \<le> YearFromTime (ToLocalTime rule t)"
    and "hourCycle24 e ''en-US'' = H23 \<or> HourFromTime (ToLocalTime rule t) \<noteq> 0"
    and "- 8640000000000000 \<le> t + rule t" and "t + rule t \<le> 8640000000000000"
  shows "offsetMinutes e z t = Inr (Num k)"
proof -
  have r: "0 \<le> (t + rule t) mod 1000" "(t + rule t) mod 1000 < 1000" by simp_all
  show ?thesis
    using offsetMinutes_exact [OF assms(1,3,4,5,6)] rounded_whole_minutes [OF r, of k]
    by (simp add: assms(2))
qed

text \<open>Where midnight is hour 24, \<open>Date.UTC\<close> carries the 24 hours into the next day, and
  during the first hour of the local day the result is a day too large.\<close>

lemma offsetMinutes_h24_example:
  "offsetMinutes example_env_h24 ''UTC'' 1718409600000 = Inr (Num 1440)"
  by code_simp

lemma offsetMinutes_unknown:
  assumes "timeZoneRules e z = None"
  shows "offsetMinutes e z t = Inl (UnknownZoneError z)"
  using assms by (simp add: offsetMinutes_def DateTimeFormat_def)

lemma minus_sign_bytes: "minus_sign = [CHR 0xE2, CHR 0x88, CHR 0x92]"
  by code_simp

lemma label_Num: "label (Num d) = spec_label d"
proof -
  have m: "sgn \<bar>d\<bar> * (\<bar>d\<bar> mod 60) = \<bar>d\<bar> mod 60"
    by (cases "d = 0") (simp_all add: sgn_if)
  have nn: "\<not> \<bar>d\<bar> div 60 < 0" "\<not> \<bar>d\<bar> mod 60 < 0" by (simp_all add: pos_imp_zdiv_neg_iff)
  show ?thesis
    using nn
    by (simp add: label_def spec_label_def Let_def num_ge0_def num_abs_def floor_div_def
        num_rem_def truthy_def toString_def m minus_sign_bytes)
qed

lemma spec_label_examples:
  "spec_label 0 = ''+0h''" "spec_label 180 = ''+3h''"
  "spec_label (- 150) = [CHR 0xE2, CHR 0x88, CHR 0x92] @ ''2h 30m''"
  by code_simp+

text \<open>A label starts with its sign: \<open>+\<close>, or the three bytes of U+2212.\<close>

lemma spec_label_sign:
  "take (if 0 \<le> d then 1 else 3) (spec_label d)
     = (if 0 \<le> d then ''+'' else [CHR 0xE2, CHR 0x88, CHR 0x92])"
  by (simp add: spec_label_def Let_def)

text \<open>With a \<open>NaN\<close> on either side the label is the minus sign and \<open>NaNh\<close>.\<close>

lemma label_NaN: "label NaN = [CHR 0xE2, CHR 0x88, CHR 0x92] @ ''NaNh''"
  by (simp add: label_def Let_def num_ge0_def num_abs_def floor_div_def num_rem_def truthy_def
      toString_def minus_sign_bytes)

lemma example_rules_New_York:
  "timeZoneRules example_env (deviceZone example_env) =
     Some (\<lambda>t. if 1710054000000 \<le> t \<and> t < 1730613600000 then - 14400000 else - 18000000)"
  by (simp add: example_env_def example_rules_def deviceZone_def)

text \<open>At the last time value a zone east of UTC has local fields past the range of time
  values: \<open>Date.UTC\<close> is \<open>NaN\<close>, and so is the result.\<close>

lemma Tokyo_at_end:
  assumes "timeZoneRules e ''Asia/Tokyo'' = Some (\<lambda>t. 32400000)"
    and "hourCycle24 e ''en-US'' = H23"
  shows "offsetMinutes e ''Asia/Tokyo'' 8640000000000000 = Inr NaN"
proof -
  have y: "100 \<le> YearFromTime 8640000032400000" by code_simp
  have "unclipped H23 8640000032400000 = 8640000032400000"
    by (simp add: unclipped_roundtrip [OF y])
  then show ?thesis
    using offsetMinutes_NaN [OF assms(1), of 8640000000000000]
    by (simp add: assms(2) ToLocalTime_def)
qed

lemma New_York_at_end:
  "offsetMinutes example_env (deviceZone example_env) 8640000000000000 = Inr (Num (- 300))"
proof -
  have y: "100 \<le> YearFromTime 8639999982000000" by code_simp
  show ?thesis
    using offsetMinutes_exact [OF example_rules_New_York, of 8640000000000000] y
    by (simp add: ToLocalTime_def example_env_def)
qed

lemma diffLabel_NaN:
  assumes "offsetMinutes e z t = Inr NaN" and "offsetMinutes e (deviceZone e) t = Inr b"
  shows "diffLabel e z t = Inr ([CHR 0xE2, CHR 0x88, CHR 0x92] @ ''NaNh'')"
  using assms by (simp add: diffLabel_def num_sub_def label_NaN)

section \<open>Errors and timeHHmm\<close>

lemma dayKey_unknown:
  assumes "timeZoneRules e z = None"
  shows "dayKey e t z = Inl (UnknownZoneError z)"
  using assms by (simp add: dayKey_def DateTimeFormat_def)

lemma dayKey_known:
  assumes "timeZoneRules e z = Some rule"
  shows "\<exists>k. dayKey e t z = Inr k"
  using assms by (simp add: dayKey_def DateTimeFormat_def Let_def)

lemma timeHHmm_known:
  assumes "timeZoneRules e z = Some rule"
  shows "timeHHmm e z t =
     (let hc = hourCycle24 e ''en-GB''; tz = ToLocalTime rule t;
          h = nat (field_value hc F_hour tz); m = nat (field_value hc F_minute tz)
      in Inr [digit_char (h div 10), digit_char (h mod 10), CHR '':'',
              digit_char (m div 10), digit_char (m mod 10)])"
  using assms field_value_hour [of "hourCycle24 e ''en-GB''" "ToLocalTime rule t"]
    field_value_minute [of "hourCycle24 e ''en-GB''" "ToLocalTime rule t"]
  by (simp add: timeHHmm_def DateTimeFormat_def format_def formatToParts_def pattern_en_GB_def
      format_item_def Let_def format_value_TwoDigit)

lemma digit_chars:
  "digit_char 0 = CHR ''0''" "digit_char 1 = CHR ''1''" "digit_char 2 = CHR ''2''"
  "digit_char 3 = CHR ''3''" "digit_char 4 = CHR ''4''" "digit_char 5 = CHR ''5''"
  "digit_char 6 = CHR ''6''" "digit_char 7 = CHR ''7''" "digit_char 8 = CHR ''8''"
  "digit_char 9 = CHR ''9''"
  by code_simp+

lemma London_example:
  assumes "timeZoneRules e ''Europe/London'' = Some london" and "london 1718442300000 = 3600000"
  shows "timeHHmm e ''Europe/London'' 1718442300000 = Inr ''10:05''"
proof -
  have "HourFromTime 1718445900000 = 10" "MinFromTime 1718445900000 = 5"
    by (simp_all add: HourFromTime_def MinFromTime_def msPerHour_def msPerMinute_def)
  then show ?thesis
    using assms(2) digit_chars(2) [simplified]
    by (simp add: timeHHmm_known [OF assms(1)] Let_def ToLocalTime_def field_value_def digit_chars)
qed

lemma example_rules_London:
  "timeZoneRules example_env ''Europe/London'' =
     Some (\<lambda>t. if 1711846800000 \<le> t \<and> t < 1729990800000 then 3600000 else 0)"
  by (simp add: example_env_def example_rules_def)

section \<open>dayKey and dayRelative\<close>

lemma field_value_date:
  "field_value hc F_year tz = field_value H23 F_year tz"
  "field_value hc F_month tz = field_value H23 F_month tz"
  "field_value hc F_day tz = field_value H23 F_day tz"
  by (simp_all add: field_value_def)

lemma format_value_Numeric: "format_value Numeric v = dec (nat v)"
  by (simp add: format_value_def)

lemma dayKey_eq:
  assumes "timeZoneRules e z = Some rule"
  shows "dayKey e t z =
     Inr (key_string (field_value H23 F_year (ToLocalTime rule t))
            (field_value H23 F_month (ToLocalTime rule t))
            (field_value H23 F_day (ToLocalTime rule t)))"
  using assms field_value_month [of H23 "ToLocalTime rule t"]
    field_value_day [of H23 "ToLocalTime rule t"]
  by (simp add: dayKey_def DateTimeFormat_def Let_def find_value_en_CA template_def
      field_value_date [of "hourCycle24 e ''en-CA''"] format_value_TwoDigit key_string_def
      format_value_Numeric)

lemma remove_all_dec: "remove_all CHR ''-'' (dec n) = dec n"
  using dec_no_hyphen [of n] by (auto simp add: remove_all_def filter_id_conv)

lemma toNum_key_string:
  assumes "0 \<le> y" "0 \<le> m" "m < 100" "0 \<le> d" "d < 100"
  shows "toNum (key_string y m d) = Num (y * 10000 + m * 100 + d)"
proof -
  define a where "a = nat m div 10"
  define b where "b = nat m mod 10"
  define c where "c = nat d div 10"
  define f where "f = nat d mod 10"
  have lt: "a < 10" "b < 10" "c < 10" "f < 10" using assms by (simp_all add: a_def b_def c_def f_def)
  have md: "m = int (10 * a + b)" "d = int (10 * c + f)"
    using assms by (simp_all add: a_def b_def c_def f_def)
  have rm: "remove_all CHR ''-'' (key_string y m d)
      = (((dec (nat y) @ [digit_char a]) @ [digit_char b]) @ [digit_char c]) @ [digit_char f]"
    using lt remove_all_dec [of "nat y"]
    by (simp add: key_string_def remove_all_def digit_char_not_hyphen a_def b_def c_def f_def)
  have dg: "list_all is_digit ((((dec (nat y) @ [digit_char a]) @ [digit_char b]) @ [digit_char c]) @ [digit_char f])"
    using lt by (simp add: dec_digits is_digit_digit_char)
  have dv: "digits_val ((((dec (nat y) @ [digit_char a]) @ [digit_char b]) @ [digit_char c]) @ [digit_char f])
      = nat y * 10000 + (10 * a + b) * 100 + (10 * c + f)"
    using lt by (simp only: digits_val_snoc digits_val_dec digit_val_digit_char) simp
  show ?thesis
    unfolding toNum_def rm Number_of_def using dg dv assms(1) by (simp add: md)
qed

lemma date_number_parts:
  fixes y m d :: int
  assumes "0 \<le> m" "m < 100" "0 \<le> d" "d < 100" and "0 \<le> m'" "m' < 100" "0 \<le> d'" "d' < 100"
  shows "y * 10000 + m * 100 + d = y' * 10000 + m' * 100 + d' \<longleftrightarrow> y = y' \<and> m = m' \<and> d = d'"
proof
  assume eq: "y * 10000 + m * 100 + d = y' * 10000 + m' * 100 + d'"
  have a: "(y * 10000 + m * 100 + d) div 10000 = y" "(y * 10000 + m * 100 + d) mod 10000 = m * 100 + d"
    using assms(1-4)
    by (intro int_div_pos_eq [of _ _ _ "m * 100 + d"] int_mod_pos_eq [of _ _ y]; simp)+
  have b: "(y' * 10000 + m' * 100 + d') div 10000 = y'"
      "(y' * 10000 + m' * 100 + d') mod 10000 = m' * 100 + d'"
    using assms(5-8)
    by (intro int_div_pos_eq [of _ _ _ "m' * 100 + d'"] int_mod_pos_eq [of _ _ y']; simp)+
  have y: "y = y'" and md: "m * 100 + d = m' * 100 + d'"
    using a b eq by simp_all
  have c: "(m * 100 + d) div 100 = m" "(m * 100 + d) mod 100 = d"
    using assms(3,4) by (intro int_div_pos_eq [of _ _ _ d] int_mod_pos_eq [of _ _ m]; simp)+
  have e: "(m' * 100 + d') div 100 = m'" "(m' * 100 + d') mod 100 = d'"
    using assms(7,8) by (intro int_div_pos_eq [of _ _ _ d'] int_mod_pos_eq [of _ _ m']; simp)+
  show "y = y' \<and> m = m' \<and> d = d'"
    using y c e md by simp
next
  assume "y = y' \<and> m = m' \<and> d = d'"
  then show "y * 10000 + m * 100 + d = y' * 10000 + m' * 100 + d'" by simp
qed

lemma key_string_inj:
  assumes "0 \<le> y" "0 \<le> m" "m < 100" "0 \<le> d" "d < 100"
    and "0 \<le> y'" "0 \<le> m'" "m' < 100" "0 \<le> d'" "d' < 100"
  shows "key_string y m d = key_string y' m' d' \<longleftrightarrow>
           y * 10000 + m * 100 + d = y' * 10000 + m' * 100 + d'"
proof
  assume "key_string y m d = key_string y' m' d'"
  then have "toNum (key_string y m d) = toNum (key_string y' m' d')" by simp
  then show "y * 10000 + m * 100 + d = y' * 10000 + m' * 100 + d'"
    using assms by (simp add: toNum_key_string)
next
  assume "y * 10000 + m * 100 + d = y' * 10000 + m' * 100 + d'"
  then have "y = y' \<and> m = m' \<and> d = d'" using assms by (simp add: date_number_parts)
  then show "key_string y m d = key_string y' m' d'" by simp
qed

lemma dayKey_toNum:
  assumes "timeZoneRules e z = Some rule"
  shows "\<exists>k. dayKey e t z = Inr k \<and> toNum k = Num (date_number rule t)"
  using field_value_year [of H23 "ToLocalTime rule t"]
    field_value_month [of H23 "ToLocalTime rule t"] field_value_day [of H23 "ToLocalTime rule t"]
  by (simp add: dayKey_eq [OF assms] toNum_key_string date_number_def Let_def)

lemma dayKey_same:
  assumes "timeZoneRules e z = Some rule" and "timeZoneRules e z' = Some rule'"
    and "dayKey e t z = Inr k" and "dayKey e t z' = Inr k'"
  shows "k = k' \<longleftrightarrow> date_number rule t = date_number rule' t"
proof -
  note a = field_value_year [of H23 "ToLocalTime rule t"]
    field_value_month [of H23 "ToLocalTime rule t"] field_value_day [of H23 "ToLocalTime rule t"]
  note b = field_value_year [of H23 "ToLocalTime rule' t"]
    field_value_month [of H23 "ToLocalTime rule' t"] field_value_day [of H23 "ToLocalTime rule' t"]
  have "k = key_string (field_value H23 F_year (ToLocalTime rule t))
            (field_value H23 F_month (ToLocalTime rule t))
            (field_value H23 F_day (ToLocalTime rule t))"
    using assms(3) by (simp add: dayKey_eq [OF assms(1)])
  moreover have "k' = key_string (field_value H23 F_year (ToLocalTime rule' t))
            (field_value H23 F_month (ToLocalTime rule' t))
            (field_value H23 F_day (ToLocalTime rule' t))"
    using assms(4) by (simp add: dayKey_eq [OF assms(2)])
  ultimately show ?thesis
    using a b by (simp add: key_string_inj date_number_def Let_def)
qed

section \<open>getAllZones\<close>

lemma mset_insert_by: "mset (insert_by cmp x ys) = add_mset x (mset ys)"
  by (induction ys) auto

lemma mset_sort_by: "mset (sort_by cmp xs) = mset xs"
  by (induction xs) (simp_all add: sort_by_def mset_insert_by)

lemma set_sort_by: "set (sort_by cmp xs) = set xs"
  using mset_sort_by [of cmp xs] by (metis set_mset_mset)

lemma sorted_insert_by:
  assumes total: "\<And>a b. cmp a b \<le> 0 \<or> cmp b a \<le> 0"
    and trans: "\<And>a b c. cmp a b \<le> 0 \<Longrightarrow> cmp b c \<le> 0 \<Longrightarrow> cmp a c \<le> 0"
    and "sorted_wrt (\<lambda>a b. cmp a b \<le> 0) ys"
  shows "sorted_wrt (\<lambda>a b. cmp a b \<le> 0) (insert_by cmp x ys)"
  using assms(3)
proof (induction ys)
  case Nil
  show ?case by simp
next
  case (Cons y ys)
  show ?case
  proof (cases "cmp x y \<le> 0")
    case True
    then have "\<forall>z\<in>set ys. cmp x z \<le> 0" using Cons.prems trans by auto
    then show ?thesis using True Cons.prems by simp
  next
    case False
    then have "cmp y x \<le> 0" using total [of x y] by simp
    moreover have "set (insert_by cmp x ys) = insert x (set ys)"
      using mset_insert_by [of cmp x ys] by (metis set_mset_mset set_mset_add_mset_insert)
    ultimately show ?thesis using False Cons by simp
  qed
qed

lemma sorted_sort_by:
  assumes total: "\<And>a b. cmp a b \<le> 0 \<or> cmp b a \<le> 0"
    and trans: "\<And>a b c. cmp a b \<le> 0 \<Longrightarrow> cmp b c \<le> 0 \<Longrightarrow> cmp a c \<le> 0"
  shows "sorted_wrt (\<lambda>a b. cmp a b \<le> 0) (sort_by cmp xs)"
proof (induction xs)
  case Nil
  show ?case by (simp add: sort_by_def)
next
  case (Cons x xs)
  have "sort_by cmp (x # xs) = insert_by cmp x (sort_by cmp xs)" by (simp add: sort_by_def)
  then show ?case using sorted_insert_by [OF total trans Cons.IH] by simp
qed

lemma getAllZones_eq:
  "getAllZones e =
     sort_by (\<lambda>a b. localeCompare e (city a) (city b))
       (map (\<lambda>i. \<lparr>zone_id = i, city = cityFromZoneId i,
                   country = map_option countryName
                     (Map_of (map (\<lambda>z. (name z, z)) (getTimeZones e)) i)\<rparr>)
          (resolved_ids e))"
  by (cases "supportedValuesOf e") (simp_all add: getAllZones_def resolved_ids_def Let_def)

lemma mset_zone_ids: "mset (map zone_id (getAllZones e)) = mset (resolved_ids e)"
proof -
  have "mset (map zone_id (getAllZones e)) = image_mset zone_id (mset (getAllZones e))" by simp
  also have "\<dots> = mset (resolved_ids e)"
    unfolding getAllZones_eq mset_sort_by by (simp add: image_mset.compositionality comp_def)
  finally show ?thesis .
qed

lemma example_compare_total: "example_compare a b \<le> 0 \<or> example_compare b a \<le> 0"
  by (auto simp: example_compare_def)

lemma example_compare_trans:
  "example_compare a b \<le> 0 \<Longrightarrow> example_compare b c \<le> 0 \<Longrightarrow> example_compare a c \<le> 0"
  by (auto simp: example_compare_def split: if_splits)

lemma Map_of_None: "Map_of ps k = None \<longleftrightarrow> k \<notin> fst ` set ps"
  by (simp add: Map_of_def map_of_eq_None_iff)

lemma Map_of_Some: "Map_of ps k = Some v \<Longrightarrow> (k, v) \<in> set ps"
  using map_of_SomeD [of "rev ps" k v] by (simp add: Map_of_def)

section \<open>Properties of the module\<close>

text \<open>
  C1. For recognised device and target zones \<open>dayRelative\<close> takes the calendar date of each
  zone at the instant as one integer, year times 10000 plus month times 100 plus day (so
  that 2024-06-15 is 20240615), and answers from the difference of the target's integer
  and the device's: \<open>Today\<close> when it is 0, \<open>Tomorrow\<close> when it is 1, \<open>Yesterday\<close> when it is
  -1, and otherwise \<open>Tomorrow\<close> when it is positive and \<open>Yesterday\<close> when it is negative.
\<close>

theorem dayRelative_spec:
  assumes "timeZoneRules e (deviceZone e) = Some device"
    and "timeZoneRules e targetZone = Some target"
  shows "dayRelative e targetZone t =
           Inr (let delta = date_number target t - date_number device t
                in if delta = 0 then Today
                   else if delta = 1 then Tomorrow
                   else if delta = - 1 then Yesterday
                   else if 0 < delta then Tomorrow else Yesterday)
         \<and> date_number (\<lambda>t. 0) 1718442300000 = 20240615"
proof -
  obtain kd where kd: "dayKey e t (deviceZone e) = Inr kd" "toNum kd = Num (date_number device t)"
    using dayKey_toNum [OF assms(1)] by blast
  obtain kt where kt: "dayKey e t targetZone = Inr kt" "toNum kt = Num (date_number target t)"
    using dayKey_toNum [OF assms(2)] by blast
  have same: "kt = kd \<longleftrightarrow> date_number target t = date_number device t"
    using assms(2,1) kt(1) kd(1) by (rule dayKey_same)
  have "dayRelative e targetZone t = Inr (classify kt kd)"
    by (simp add: dayRelative_def kd kt)
  moreover have "classify kt kd =
      (let delta = date_number target t - date_number device t
       in if delta = 0 then Today
          else if delta = 1 then Tomorrow
          else if delta = - 1 then Yesterday
          else if 0 < delta then Tomorrow else Yesterday)"
    by (simp add: classify_def same kd(2) kt(2) num_sub_def num_gt0_def Let_def)
  moreover have "date_number (\<lambda>t. 0) 1718442300000 = 20240615"
    by code_simp
  ultimately show ?thesis by simp
qed

theorem dayRelative_spec_witness:
  "dayRelative example_env ''Asia/Tokyo'' 1706731200000 = Inr Tomorrow
   \<and> date_number (\<lambda>t. 32400000) 1706731200000 = 20240201
   \<and> date_number (\<lambda>t. if 1710054000000 \<le> t \<and> t < 1730613600000 then - 14400000 else - 18000000)
        1706731200000 = 20240131"
proof -
  have a: "date_number (\<lambda>t. 32400000) 1706731200000 = 20240201" by code_simp
  have b: "date_number (\<lambda>t. if 1710054000000 \<le> t \<and> t < 1730613600000 then - 14400000 else - 18000000)
        1706731200000 = 20240131" by code_simp
  show ?thesis
    using dayRelative_spec [OF example_rules_New_York example_rules_Tokyo, of 1706731200000]
    by (simp add: a b)
qed

text \<open>
  C2. At 0050-01-01T00:00:00Z in the zone UTC the local fields are those of the instant
  itself, so that reading them as a UTC instant gives the instant back and a difference of
  0; \<open>offsetMinutes\<close> returns 999302400, the minutes of 1900 years, because \<open>Date.UTC\<close>
  takes the year 50 for 1950.
\<close>

theorem offsetMinutes_year_50:
  "offsetMinutes example_env ''UTC'' (- 60589296000000) = Inr (Num 999302400)
   \<and> timeZoneRules example_env ''UTC'' = Some (\<lambda>t. 0)
   \<and> local_as_utc (hourCycle24 example_env ''en-US'') (\<lambda>t. 0) (- 60589296000000)
       - (- 60589296000000) = 0
   \<and> \<not> nearest_minute 999302400 0"
proof -
  have "offsetMinutes example_env ''UTC'' (- 60589296000000) = Inr (Num 999302400)"
    by code_simp
  moreover have "timeZoneRules example_env ''UTC'' = Some (\<lambda>t. 0)"
    by (simp add: example_env_def example_rules_def)
  moreover have "local_as_utc (hourCycle24 example_env ''en-US'') (\<lambda>t. 0) (- 60589296000000)
       - (- 60589296000000) = 0"
    by code_simp
  moreover have "\<not> nearest_minute 999302400 0"
    by (simp add: nearest_minute_def)
  ultimately show ?thesis by simp
qed

text \<open>
  C3. For target and device zones that the platform recognises, at an instant where the
  local time of each zone lies in the range of time values, a day short of its end, both
  offsets are integers and \<open>diffLabel\<close> renders their difference \<open>d\<close>: a plus sign when \<open>d\<close>
  is not negative, otherwise the minus sign U+2212 (the bytes E2, 88, 92, not a hyphen);
  then the whole hours of \<open>|d|\<close> and \<open>h\<close>; then, unless they are zero, a space, the remaining
  minutes and \<open>m\<close>. So 180 is \<open>+3h\<close>, -150 is the minus sign and \<open>2h 30m\<close>, and 0 is \<open>+0h\<close>.
\<close>

theorem diffLabel_spec:
  assumes "timeZoneRules e targetZone = Some r1" and "timeZoneRules e (deviceZone e) = Some r2"
    and "- 8640000000000000 \<le> t + r1 t" and "t + r1 t \<le> 8639999913600000"
    and "- 8640000000000000 \<le> t + r2 t" and "t + r2 t \<le> 8639999913600000"
  shows "\<exists>a b. offsetMinutes e targetZone t = Inr (Num a)
           \<and> offsetMinutes e (deviceZone e) t = Inr (Num b)
           \<and> diffLabel e targetZone t =
               Inr ((if 0 \<le> a - b then ''+'' else [CHR 0xE2, CHR 0x88, CHR 0x92])
                    @ dec (nat (\<bar>a - b\<bar> div 60))
                    @ (if \<bar>a - b\<bar> mod 60 = 0 then ''h''
                       else ''h '' @ dec (nat (\<bar>a - b\<bar> mod 60)) @ ''m''))
           \<and> diffLabel e targetZone t = Inr (spec_label (a - b))
           \<and> label (Num 180) = ''+3h''
           \<and> label (Num (- 150)) = [CHR 0xE2, CHR 0x88, CHR 0x92] @ ''2h 30m''
           \<and> label (Num 0) = ''+0h''"
proof -
  obtain a where a: "offsetMinutes e targetZone t = Inr (Num a)"
    using offsetMinutes_Num [OF assms(1,3,4)] by blast
  obtain b where b: "offsetMinutes e (deviceZone e) t = Inr (Num b)"
    using offsetMinutes_Num [OF assms(2,5,6)] by blast
  have l: "diffLabel e targetZone t = Inr (spec_label (a - b))"
    by (simp add: diffLabel_def a b num_sub_def label_Num)
  have eq: "spec_label (a - b) =
      (if 0 \<le> a - b then ''+'' else [CHR 0xE2, CHR 0x88, CHR 0x92])
      @ dec (nat (\<bar>a - b\<bar> div 60))
      @ (if \<bar>a - b\<bar> mod 60 = 0 then ''h''
         else ''h '' @ dec (nat (\<bar>a - b\<bar> mod 60)) @ ''m'')"
    by (simp add: spec_label_def Let_def)
  have l2: "diffLabel e targetZone t =
      Inr ((if 0 \<le> a - b then ''+'' else [CHR 0xE2, CHR 0x88, CHR 0x92])
           @ dec (nat (\<bar>a - b\<bar> div 60))
           @ (if \<bar>a - b\<bar> mod 60 = 0 then ''h''
              else ''h '' @ dec (nat (\<bar>a - b\<bar> mod 60)) @ ''m''))"
    unfolding l eq by (rule refl)
  have ex: "label (Num 180) = ''+3h''" "label (Num (- 150)) = [CHR 0xE2, CHR 0x88, CHR 0x92] @ ''2h 30m''"
      "label (Num 0) = ''+0h''"
    unfolding label_Num by (rule spec_label_examples)+
  show ?thesis
    using a b l l2 ex by blast
qed

theorem diffLabel_spec_witness:
  "diffLabel example_env ''Asia/Tokyo'' 1705320000000 = Inr ''+14h''"
proof -
  obtain a b where ab: "offsetMinutes example_env ''Asia/Tokyo'' 1705320000000 = Inr (Num a)"
      "offsetMinutes example_env (deviceZone example_env) 1705320000000 = Inr (Num b)"
      "diffLabel example_env ''Asia/Tokyo'' 1705320000000 = Inr (spec_label (a - b))"
    using diffLabel_spec [OF example_rules_Tokyo example_rules_New_York, of 1705320000000]
    by auto
  have "offsetMinutes example_env ''Asia/Tokyo'' 1705320000000 = Inr (Num 540)"
    by code_simp
  moreover have "offsetMinutes example_env (deviceZone example_env) 1705320000000 = Inr (Num (- 300))"
    by code_simp
  ultimately have "a = 540" "b = - 300" using ab by simp_all
  moreover have "spec_label (540 - (- 300)) = ''+14h''" by code_simp
  ultimately show ?thesis using ab(3) by simp
qed

theorem diffLabel_spec_counterexample:
  "timeZoneRules example_env ''Asia/Tokyo'' \<noteq> None
   \<and> timeZoneRules example_env (deviceZone example_env) \<noteq> None
   \<and> offsetMinutes example_env ''Asia/Tokyo'' 8640000000000000 = Inr NaN
   \<and> offsetMinutes example_env (deviceZone example_env) 8640000000000000 = Inr (Num (- 300))
   \<and> diffLabel example_env ''Asia/Tokyo'' 8640000000000000 = Inr ([CHR 0xE2, CHR 0x88, CHR 0x92] @ ''NaNh'')"
proof -
  have h: "hourCycle24 example_env ''en-US'' = H23" by (simp add: example_env_def)
  note a = Tokyo_at_end [OF example_rules_Tokyo h]
  show ?thesis
    using a New_York_at_end diffLabel_NaN [OF a New_York_at_end]
    by (simp add: example_rules_Tokyo example_rules_New_York)
qed

text \<open>
  C4. For a zone the platform does not recognise, \<open>offsetMinutes\<close>, \<open>diffLabel\<close> and
  \<open>timeHHmm\<close> end with the error of the \<open>Intl.DateTimeFormat\<close> constructor for that zone,
  and so does \<open>dayRelative\<close> (which formats the device's zone first, and ends with that
  zone's error if the device's zone is not recognised either): none of them catches the
  error or returns a value in its place.
\<close>

theorem unknown_zone_propagates:
  assumes "timeZoneRules e z = None"
  shows "offsetMinutes e z t = Inl (UnknownZoneError z)
         \<and> diffLabel e z t = Inl (UnknownZoneError z)
         \<and> timeHHmm e z t = Inl (UnknownZoneError z)
         \<and> dayRelative e z t =
             Inl (UnknownZoneError (if timeZoneRules e (deviceZone e) = None then deviceZone e else z))"
proof -
  have "dayRelative e z t =
      Inl (UnknownZoneError (if timeZoneRules e (deviceZone e) = None then deviceZone e else z))"
  proof (cases "timeZoneRules e (deviceZone e)")
    case None
    then show ?thesis by (simp add: dayRelative_def dayKey_unknown)
  next
    case (Some rule)
    then obtain k where "dayKey e t (deviceZone e) = Inr k"
      using dayKey_known by blast
    then show ?thesis using Some by (simp add: dayRelative_def dayKey_unknown [OF assms])
  qed
  then show ?thesis
    using assms
    by (simp add: diffLabel_def offsetMinutes_unknown timeHHmm_def DateTimeFormat_def)
qed

theorem unknown_zone_propagates_witness:
  "offsetMinutes example_env ''Mars/Olympus_Mons'' 1705320000000 = Inl (UnknownZoneError ''Mars/Olympus_Mons'')
   \<and> diffLabel example_env ''Mars/Olympus_Mons'' 1705320000000 = Inl (UnknownZoneError ''Mars/Olympus_Mons'')
   \<and> timeHHmm example_env ''Mars/Olympus_Mons'' 1705320000000 = Inl (UnknownZoneError ''Mars/Olympus_Mons'')
   \<and> dayRelative example_env ''Mars/Olympus_Mons'' 1705320000000 = Inl (UnknownZoneError ''Mars/Olympus_Mons'')"
proof -
  have u: "timeZoneRules example_env ''Mars/Olympus_Mons'' = None"
    by (simp add: example_env_def example_rules_def)
  show ?thesis
    using unknown_zone_propagates [OF u, of 1705320000000]
    by (simp add: example_rules_New_York)
qed

text \<open>
  C5. \<open>getAllZones\<close> always returns a list. Its identifiers are those of the platform's
  enumeration when the platform has one and it returns, and those of the bundled list when
  the enumeration is missing or throws. When \<open>localeCompare\<close> is a consistent comparator
  (any two strings are comparable, and the order is transitive) the list is in ascending
  order of \<open>city\<close> under it.
\<close>

theorem getAllZones_spec:
  assumes "\<And>a b. localeCompare e a b \<le> 0 \<or> localeCompare e b a \<le> 0"
    and "\<And>a b c. localeCompare e a b \<le> 0 \<Longrightarrow> localeCompare e b c \<le> 0 \<Longrightarrow> localeCompare e a c \<le> 0"
  shows "mset (map zone_id (getAllZones e)) =
           mset (case supportedValuesOf e of
                   Returns xs \<Rightarrow> xs
                 | Absent \<Rightarrow> timeZonesNames e
                 | Throws \<Rightarrow> timeZonesNames e)
         \<and> sorted_wrt (\<lambda>a b. localeCompare e (city a) (city b) \<le> 0) (getAllZones e)"
proof -
  have "sorted_wrt (\<lambda>a b. localeCompare e (city a) (city b) \<le> 0) (getAllZones e)"
    unfolding getAllZones_eq
    by (rule sorted_sort_by) (use assms in blast)+
  then show ?thesis
    using mset_zone_ids [of e] by (simp add: resolved_ids_def)
qed

theorem getAllZones_spec_witness:
  "mset (map zone_id (getAllZones example_env)) =
     mset [''Asia/Tokyo'', ''Europe/London'', ''UTC'', ''America/New_York'']
   \<and> mset (map zone_id (getAllZones example_env_enum)) = mset [''Europe/London'', ''Asia/Manila'']
   \<and> sorted_wrt (\<lambda>a b. example_compare (city a) (city b) \<le> 0) (getAllZones example_env)"
proof -
  have c: "localeCompare example_env = example_compare"
      "localeCompare example_env_enum = example_compare"
    by (simp_all add: example_env_def example_env_enum_def)
  have s: "supportedValuesOf example_env = Absent"
      "supportedValuesOf example_env_enum = Returns [''Europe/London'', ''Asia/Manila'']"
      "timeZonesNames example_env = [''Asia/Tokyo'', ''Europe/London'', ''UTC'', ''America/New_York'']"
    by (simp_all add: example_env_def example_env_enum_def)
  show ?thesis
    using getAllZones_spec [of example_env] getAllZones_spec [of example_env_enum]
      example_compare_total example_compare_trans
    unfolding c s by simp
qed

text \<open>
  C6. \<open>cityFromZoneId\<close> is a total function: on every string it returns the part after
  the last \<open>/\<close> (all of it when there is no \<open>/\<close>) with each underscore turned into a
  space; it sends \<open>America/Argentina/Buenos_Aires\<close> to \<open>Buenos Aires\<close> and \<open>UTC\<close> to
  \<open>UTC\<close>.
\<close>

theorem cityFromZoneId_spec:
  "cityFromZoneId zid = map (\<lambda>x. if x = CHR ''_'' then CHR '' '' else x) (after_last CHR ''/'' zid)
   \<and> cityFromZoneId ''America/Argentina/Buenos_Aires'' = ''Buenos Aires''
   \<and> cityFromZoneId ''UTC'' = ''UTC''"
  by (simp add: cityFromZoneId_eq replace_all_def after_last_def)

theorem cityFromZoneId_spec_witness:
  "cityFromZoneId ''Asia/Ho_Chi_Minh'' = ''Ho Chi Minh''"
  using cityFromZoneId_spec [of "''Asia/Ho_Chi_Minh''"]
  by (simp add: after_last_def)

text \<open>
  C7. For a recognised zone \<open>timeHHmm\<close> is five characters: the two decimal digits of the
  zone-local hour, a colon, the two decimal digits of the zone-local minute. The hour is
  that of the 24-hour clock (midnight is 0, or 24 where the locale data count the hours
  from 1 to 24), the minute is below 60, and there are no seconds. At
  2024-06-15T09:05:00Z in \<open>Europe/London\<close>, then one hour ahead of UTC, the result is
  \<open>10:05\<close>.
\<close>

theorem timeHHmm_spec:
  assumes "timeZoneRules e z = Some rule"
    and "timeZoneRules e ''Europe/London'' = Some london" and "london 1718442300000 = 3600000"
  shows "(\<exists>h m. timeHHmm e z t =
              Inr [digit_char (h div 10), digit_char (h mod 10), CHR '':'',
                   digit_char (m div 10), digit_char (m mod 10)]
            \<and> int m = MinFromTime (t + rule t) \<and> m < 60
            \<and> int h mod 24 = HourFromTime (t + rule t) \<and> h \<le> 24)
         \<and> timeHHmm e ''Europe/London'' 1718442300000 = Inr ''10:05''"
proof -
  define hc where "hc = hourCycle24 e ''en-GB''"
  define h where "h = nat (field_value hc F_hour (t + rule t))"
  define m where "m = nat (field_value hc F_minute (t + rule t))"
  have hr: "0 \<le> HourFromTime (t + rule t)" "HourFromTime (t + rule t) < 24"
    using HourFromTime_range [of "t + rule t"] by simp_all
  have mr: "0 \<le> MinFromTime (t + rule t)" "MinFromTime (t + rule t) < 60"
    by (simp_all add: MinFromTime_def)
  have "timeHHmm e z t =
      Inr [digit_char (h div 10), digit_char (h mod 10), CHR '':'',
           digit_char (m div 10), digit_char (m mod 10)]"
    by (simp add: timeHHmm_known [OF assms(1)] Let_def ToLocalTime_def h_def m_def hc_def)
  moreover have "int m = MinFromTime (t + rule t)" "m < 60"
    using mr by (simp_all add: m_def field_value_def)
  moreover have "int h mod 24 = HourFromTime (t + rule t)" "h \<le> 24"
    using hr by (auto simp add: h_def field_value_def Let_def)
  ultimately show ?thesis
    using London_example [OF assms(2,3)] by blast
qed

theorem timeHHmm_spec_witness:
  "timeHHmm example_env ''Europe/London'' 1718442300000 = Inr ''10:05''
   \<and> (\<exists>h m. timeHHmm example_env ''Asia/Tokyo'' 1705320000000 =
              Inr [digit_char (h div 10), digit_char (h mod 10), CHR '':'',
                   digit_char (m div 10), digit_char (m mod 10)])"
  using timeHHmm_spec [OF example_rules_Tokyo example_rules_London, of 1705320000000]
  by auto

text \<open>
  C8. When the platform recognises the device's zone, \<open>diffLabel\<close> of the device's own zone
  is \<open>+0h\<close> at every instant where the zone's local time lies in the range of time values,
  a day short of its end.
\<close>

theorem diffLabel_deviceZone:
  assumes "timeZoneRules e (deviceZone e) = Some rule"
    and "- 8640000000000000 \<le> t + rule t" and "t + rule t \<le> 8639999913600000"
  shows "diffLabel e (deviceZone e) t = Inr ''+0h''"
proof -
  obtain a where a: "offsetMinutes e (deviceZone e) t = Inr (Num a)"
    using offsetMinutes_Num [OF assms] by blast
  show ?thesis
    by (simp add: diffLabel_def a num_sub_def label_Num spec_label_examples)
qed

theorem diffLabel_deviceZone_witness:
  "diffLabel example_env ''America/New_York'' 1705320000000 = Inr ''+0h''"
  using diffLabel_deviceZone [OF example_rules_New_York, of 1705320000000]
  by (simp add: deviceZone_def example_env_def)

theorem diffLabel_deviceZone_counterexample:
  "deviceZone example_env_Tokyo = ''Asia/Tokyo''
   \<and> timeZoneRules example_env_Tokyo (deviceZone example_env_Tokyo) \<noteq> None
   \<and> diffLabel example_env_Tokyo (deviceZone example_env_Tokyo) 8640000000000000
       = Inr ([CHR 0xE2, CHR 0x88, CHR 0x92] @ ''NaNh'')
   \<and> diffLabel example_env_Tokyo (deviceZone example_env_Tokyo) 8640000000000000 \<noteq> Inr ''+0h''"
proof -
  have z: "deviceZone example_env_Tokyo = ''Asia/Tokyo''"
    by (simp add: deviceZone_def example_env_Tokyo_def)
  have r: "timeZoneRules example_env_Tokyo ''Asia/Tokyo'' = Some (\<lambda>t. 32400000)"
    and h: "hourCycle24 example_env_Tokyo ''en-US'' = H23"
    by (simp_all add: example_env_Tokyo_def example_env_def example_rules_def)
  have a: "offsetMinutes example_env_Tokyo ''Asia/Tokyo'' 8640000000000000 = Inr NaN"
    using r h by (rule Tokyo_at_end)
  have "diffLabel example_env_Tokyo ''Asia/Tokyo'' 8640000000000000
      = Inr ([CHR 0xE2, CHR 0x88, CHR 0x92] @ ''NaNh'')"
    using a by (intro diffLabel_NaN [where b = NaN]) (simp_all add: z)
  then show ?thesis using r by (simp add: z)
qed

text \<open>
  C9. For a recognised zone the result of \<open>offsetMinutes\<close> depends on nothing but the
  instant, the zone's offset at it and the hour cycle of the platform: two calls with the
  same zone and instant that agree on these return the same. The result is an integer
  when the zone's local time lies in the range of time values, a day short of its end.
  The function does not clamp it. When the local time lies in that range, the zone's
  offset at the instant lies between 12 hours behind and 14 hours ahead of UTC, the
  zone-local year is 100 or later and the local hour is not rendered as 24, the result is
  the offset less the milliseconds of the local second, rounded to minutes, and lies
  between -720 and 840.
\<close>

theorem offsetMinutes_range:
  assumes "timeZoneRules e z = Some rule"
  shows "(\<forall>e' rule'. timeZoneRules e' z = Some rule' \<and> rule' t = rule t
              \<and> hourCycle24 e' ''en-US'' = hourCycle24 e ''en-US''
            \<longrightarrow> offsetMinutes e' z t = offsetMinutes e z t)
         \<and> (- 8640000000000000 \<le> t + rule t \<and> t + rule t \<le> 8639999913600000
            \<longrightarrow> (\<exists>m. offsetMinutes e z t = Inr (Num m)))
         \<and> (- 43200000 \<le> rule t \<and> rule t \<le> 50400000
              \<and> 100 \<le> YearFromTime (ToLocalTime rule t)
              \<and> (hourCycle24 e ''en-US'' = H23 \<or> HourFromTime (ToLocalTime rule t) \<noteq> 0)
              \<and> - 8640000000000000 \<le> t + rule t \<and> t + rule t \<le> 8640000000000000
            \<longrightarrow> offsetMinutes e z t =
                  Inr (Num ((2 * (rule t - (t + rule t) mod 1000) + 60000) div 120000))
                \<and> - 720 \<le> (2 * (rule t - (t + rule t) mod 1000) + 60000) div 120000
                \<and> (2 * (rule t - (t + rule t) mod 1000) + 60000) div 120000 \<le> 840)"
proof -
  have r: "0 \<le> (t + rule t) mod 1000" "(t + rule t) mod 1000 < 1000" by simp_all
  have same: "offsetMinutes e' z t = offsetMinutes e z t"
    if "timeZoneRules e' z = Some rule'" "rule' t = rule t"
      "hourCycle24 e' ''en-US'' = hourCycle24 e ''en-US''" for e' rule'
    using that by (simp add: offsetMinutes_fields [OF assms] offsetMinutes_fields [OF that(1)]
        ToLocalTime_def)
  have num: "\<exists>m. offsetMinutes e z t = Inr (Num m)"
    if "- 8640000000000000 \<le> t + rule t" "t + rule t \<le> 8639999913600000"
    using assms that by (rule offsetMinutes_Num)
  have rng: "offsetMinutes e z t =
        Inr (Num ((2 * (rule t - (t + rule t) mod 1000) + 60000) div 120000))
      \<and> - 720 \<le> (2 * (rule t - (t + rule t) mod 1000) + 60000) div 120000
      \<and> (2 * (rule t - (t + rule t) mod 1000) + 60000) div 120000 \<le> 840"
    if "- 43200000 \<le> rule t" "rule t \<le> 50400000" "100 \<le> YearFromTime (ToLocalTime rule t)"
      "hourCycle24 e ''en-US'' = H23 \<or> HourFromTime (ToLocalTime rule t) \<noteq> 0"
      "- 8640000000000000 \<le> t + rule t" "t + rule t \<le> 8640000000000000"
    using offsetMinutes_exact [OF assms that(3,4,5,6)] rounded_range [OF that(1,2) r] by simp
  show ?thesis
    using same num rng by blast
qed

theorem offsetMinutes_range_witness:
  "offsetMinutes example_env ''Asia/Tokyo'' 1705320000000 = Inr (Num 540)
   \<and> offsetMinutes example_env_enum ''Asia/Tokyo'' 1705320000000 = Inr (Num 540)"
proof -
  have y: "100 \<le> YearFromTime (ToLocalTime (\<lambda>t. 32400000) 1705320000000)"
    by code_simp
  have h: "hourCycle24 example_env ''en-US'' = H23
      \<or> HourFromTime (ToLocalTime (\<lambda>t. 32400000) 1705320000000) \<noteq> 0"
    by (simp add: example_env_def)
  have e: "timeZoneRules example_env_enum ''Asia/Tokyo'' = Some (\<lambda>t. 32400000)"
      "hourCycle24 example_env_enum ''en-US'' = hourCycle24 example_env ''en-US''"
    by (simp_all add: example_env_enum_def example_env_def example_rules_def)
  note w = offsetMinutes_range [OF example_rules_Tokyo, of 1705320000000]
  have a: "offsetMinutes example_env ''Asia/Tokyo'' 1705320000000 = Inr (Num 540)"
    using w y h by simp
  have "offsetMinutes example_env_enum ''Asia/Tokyo'' 1705320000000
      = offsetMinutes example_env ''Asia/Tokyo'' 1705320000000"
    using w e by blast
  then show ?thesis using a by simp
qed

theorem offsetMinutes_range_counterexample:
  "timeZoneRules example_env ''Asia/Manila'' \<noteq> None
   \<and> offsetMinutes example_env ''Asia/Manila'' (- 4000000000000) = Inr (Num (- 956))
   \<and> \<not> (- 720 \<le> (- 956 :: int))"
proof -
  have "offsetMinutes example_env ''Asia/Manila'' (- 4000000000000) = Inr (Num (- 956))"
    by code_simp
  moreover have "timeZoneRules example_env ''Asia/Manila'' \<noteq> None"
    by (simp add: example_env_def example_rules_def)
  ultimately show ?thesis by simp
qed

text \<open>
  C10. Every entry of \<open>getAllZones\<close> has the city that \<open>cityFromZoneId\<close> gives for its
  identifier. It has no country when no entry of the metadata table has the identifier as
  its name; otherwise its country is the \<open>countryName\<close> of such an entry (the last of
  them).
\<close>

theorem getAllZones_entries:
  assumes "x \<in> set (getAllZones e)"
  shows "city x = cityFromZoneId (zone_id x)
         \<and> (case Map_of (map (\<lambda>z. (name z, z)) (getTimeZones e)) (zone_id x) of
               None \<Rightarrow> country x = None \<and> zone_id x \<notin> name ` set (getTimeZones e)
             | Some z \<Rightarrow> country x = Some (countryName z) \<and> z \<in> set (getTimeZones e)
                          \<and> name z = zone_id x)"
proof -
  define table where "table = Map_of (map (\<lambda>z. (name z, z)) (getTimeZones e))"
  obtain i where x: "x = \<lparr>zone_id = i, city = cityFromZoneId i,
      country = map_option countryName (table i)\<rparr>"
    using assms unfolding getAllZones_eq set_sort_by table_def by auto
  show ?thesis
  proof (cases "table i")
    case None
    then have "i \<notin> name ` set (getTimeZones e)"
      unfolding table_def Map_of_None by (simp add: image_image)
    then show ?thesis using None x by (simp add: table_def [symmetric])
  next
    case (Some z)
    then have "(i, z) \<in> set (map (\<lambda>z. (name z, z)) (getTimeZones e))"
      unfolding table_def by (rule Map_of_Some)
    then have "z \<in> set (getTimeZones e) \<and> name z = i" by auto
    then show ?thesis using Some x by (simp add: table_def [symmetric])
  qed
qed

theorem getAllZones_entries_witness:
  "city \<lparr>zone_id = ''America/New_York'', city = ''New York'', country = Some ''United States''\<rparr>
     = cityFromZoneId ''America/New_York''
   \<and> \<lparr>zone_id = ''America/New_York'', city = ''New York'', country = Some ''United States''\<rparr>
       \<in> set (getAllZones example_env)"
proof -
  have m: "\<lparr>zone_id = ''America/New_York'', city = ''New York'', country = Some ''United States''\<rparr>
       \<in> set (getAllZones example_env)"
    by code_simp
  show ?thesis
    using getAllZones_entries [OF m] m by simp
qed

end
